theory Spec2Isabelle
  imports Complex_Main "HOL-Library.Multiset" "HOL-Library.Log_Nat"
begin

section \<open>JavaScript values\<close>

text \<open>
  The handler of \<^verbatim>\<open>api/search.js\<close> works on values that arrive as JSON (the reply of
  the language model, the marketplace's items and sellers) and on object literals it
  builds itself. They are modelled by one datatype of JavaScript values. A number of
  a JSON text is kept as it is written, a rational; the section on numbers says how
  the runtime's doubles are computed from it. An object is the list of its
  properties.
\<close>

datatype jsval =
    JUndefined
  | JNull
  | JBool bool
  | JNum rat
  | JStr string
  | JArr "jsval list"
  | JObj "(string \<times> jsval) list"

text \<open>Truthiness, as \<^verbatim>\<open>Boolean(v)\<close>, \<^verbatim>\<open>!v\<close>, \<^verbatim>\<open>v ? a : b\<close> and \<^verbatim>\<open>v || w\<close> read it.\<close>

fun truthy :: "jsval \<Rightarrow> bool" where
  "truthy JUndefined = False"
| "truthy JNull = False"
| "truthy (JBool b) = b"
| "truthy (JNum x) = (x \<noteq> 0)"
| "truthy (JStr s) = (s \<noteq> [])"
| "truthy (JArr xs) = True"
| "truthy (JObj kvs) = True"

definition js_or :: "jsval \<Rightarrow> jsval \<Rightarrow> jsval" where
  "js_or a b = (if truthy a then a else b)"

fun nullish :: "jsval \<Rightarrow> bool" where
  "nullish JUndefined = True"
| "nullish JNull = True"
| "nullish v = False"

text \<open>
  \<^verbatim>\<open>v.k\<close> for a value that is neither null nor undefined (there the read throws, and
  every caller tests \<open>nullish\<close> first). None of the property names the handler reads
  is a built-in property of a string, a number, a boolean or an array, so only an
  object answers with something else than undefined.
\<close>

fun get_prop :: "jsval \<Rightarrow> string \<Rightarrow> jsval" where
  "get_prop (JObj kvs) k = (case map_of kvs k of Some v \<Rightarrow> v | None \<Rightarrow> JUndefined)"
| "get_prop v k = JUndefined"

text \<open>\<^verbatim>\<open>v?.k\<close> and \<^verbatim>\<open>v?.[0]\<close>.\<close>

definition opt_prop :: "jsval \<Rightarrow> string \<Rightarrow> jsval" where
  "opt_prop v k = (if nullish v then JUndefined else get_prop v k)"

fun opt_index0 :: "jsval \<Rightarrow> jsval" where
  "opt_index0 (JArr (x # xs)) = x"
| "opt_index0 (JStr (c # cs)) = JStr [c]"
| "opt_index0 (JObj kvs) = get_prop (JObj kvs) ''0''"
| "opt_index0 v = JUndefined"

section \<open>Numbers\<close>

text \<open>
  A JavaScript number is an IEEE 754 double. The model keeps the rational value of
  a double and rounds the exact result of every arithmetic operation, and every
  numeric literal, with \<open>fl\<close>: to 53 significant bits, to the nearest double, a tie
  going to the neighbour with the even significand, and with the fixed spacing
  \<open>2 powi (- 1074)\<close> of the subnormal numbers at the bottom. Results of magnitude
  \<open>2 powi 1024\<close> and more, which the runtime turns into Infinity, are outside the
  model, and the two zeros are not told apart.
\<close>

definition round_half_even :: "rat \<Rightarrow> int" where
  "round_half_even z =
     (let f = \<lfloor>z\<rfloor>; d = z - of_int f
      in if d < 1 / 2 then f else if 1 / 2 < d then f + 1 else if even f then f else f + 1)"

text \<open>\<open>ilog2 x\<close> is the \<open>k\<close> with \<open>2 powi k \<le> x < 2 powi (k + 1)\<close>, for positive \<open>x\<close>.\<close>

definition ilog2 :: "rat \<Rightarrow> int" where
  "ilog2 x =
     (if 1 \<le> x then int (floorlog 2 (nat \<lfloor>x\<rfloor>)) - 1
      else - int (floorlog 2 (nat (\<lceil>1 / x\<rceil> - 1))))"

definition exponent :: "rat \<Rightarrow> int" where
  "exponent x = max (ilog2 \<bar>x\<bar> - 52) (- 1074)"

definition quantum :: "rat \<Rightarrow> rat" where
  "quantum x = 2 powi (exponent x)"

definition fl :: "rat \<Rightarrow> rat" where
  "fl x = (if x = 0 then 0 else of_int (round_half_even (x / quantum x)) * quantum x)"

section \<open>Strings\<close>

text \<open>
  A string is the list of its code units. \<^typ>\<open>char\<close> has 256 values, so the model
  covers the strings whose code units are below 256 (Latin-1, which holds every
  letter of the Spanish words the handler looks for): \<open>CHR 0xE1\<close> is a-acute,
  \<open>CHR 0xF1\<close> is n-tilde.
\<close>

definition code_unit :: "char \<Rightarrow> nat" where
  "code_unit c = of_char c"

text \<open>
  \<^verbatim>\<open>String.prototype.toLowerCase\<close> on Latin-1: A to Z, and the letters from U+00C0 to
  U+00DE but the multiplication sign U+00D7, move up by 32.
\<close>

definition lower_char :: "char \<Rightarrow> char" where
  "lower_char c =
     (let n = code_unit c
      in if (65 \<le> n \<and> n \<le> 90) \<or> (192 \<le> n \<and> n \<le> 222 \<and> n \<noteq> 215)
         then char_of (n + 32) else c)"

definition toLowerCase :: "string \<Rightarrow> string" where
  "toLowerCase s = map lower_char s"

text \<open>White space of \<^verbatim>\<open>trim\<close> and of the regular expressions' \<^verbatim>\<open>\s\<close>, below 256.\<close>

definition is_space :: "char \<Rightarrow> bool" where
  "is_space c = (code_unit c \<in> {9, 10, 11, 12, 13, 32, 160})"

definition is_digit :: "char \<Rightarrow> bool" where
  "is_digit c = (48 \<le> code_unit c \<and> code_unit c \<le> 57)"

definition trim :: "string \<Rightarrow> string" where
  "trim s = rev (dropWhile is_space (rev (dropWhile is_space s)))"

definition starts_with :: "string \<Rightarrow> string \<Rightarrow> bool" where
  "starts_with s sub = (take (length sub) s = sub)"

text \<open>\<^verbatim>\<open>s.includes(sub)\<close>: \<open>sub\<close> occurs at some position of \<open>s\<close>.\<close>

fun str_includes :: "string \<Rightarrow> string \<Rightarrow> bool" where
  "str_includes [] sub = (sub = [])"
| "str_includes (c # cs) sub = (starts_with (c # cs) sub \<or> str_includes cs sub)"

text \<open>\<^verbatim>\<open>parseInt(ds, 10)\<close> on a string of decimal digits.\<close>

definition parseInt :: "string \<Rightarrow> nat" where
  "parseInt ds = foldl (\<lambda>n c. 10 * n + (code_unit c - 48)) 0 ds"

section \<open>The environment of one request\<close>

text \<open>
  What the handler reads from outside its arguments: the process environment, the
  clock, the built-in parsers of the runtime, and the replies of the three remote
  services. One request sees one such environment.
\<close>

datatype llm_reply =
    LLM_unreachable
  | LLM_not_ok nat
  | LLM_unreadable
  | LLM_body jsval

datatype seller_reply =
    Seller_unreachable
  | Seller_not_ok
  | Seller_unreadable
  | Seller_body jsval

text \<open>
  A raw marketplace item. The fields the handler only copies are arbitrary values;
  the price is a JSON number, or \<open>None\<close> when it is null or absent.
\<close>

record item =
  item_id :: jsval
  item_title :: jsval
  item_price :: "rat option"
  item_currency_id :: jsval
  item_thumbnail :: jsval
  item_permalink :: jsval
  item_condition :: jsval
  item_shipping :: jsval
  item_seller :: jsval

datatype search_body =
    Body_null
  | Body_without_results
  | Body_results "item list"

datatype search_reply =
    Search_unreachable
  | Search_not_ok string
  | Search_unreadable
  | Search_ok search_body

text \<open>
  \<open>OPENAI_API_KEY\<close> says whether the variable is set to a non-empty string.
  \<open>chat_completions\<close>, \<open>sites_search\<close> and \<open>users\<close> are the three remote services, by
  prompt, by query value (before \<^verbatim>\<open>encodeURIComponent\<close>) and by seller id.
  \<open>JSON_parse\<close> is \<^verbatim>\<open>JSON.parse\<close>, \<open>None\<close> where it throws. \<open>current_year\<close> is
  \<^verbatim>\<open>new Date().getFullYear()\<close>, \<open>getFullYear v\<close> is \<^verbatim>\<open>new Date(v).getFullYear()\<close> with
  \<open>None\<close> for NaN, and \<open>week_ahead\<close> is the ISO date seven days from now.
\<close>

record world =
  OPENAI_API_KEY :: bool
  chat_completions :: "string \<Rightarrow> llm_reply"
  JSON_parse :: "string \<Rightarrow> jsval option"
  sites_search :: "jsval \<Rightarrow> search_reply"
  users :: "jsval \<Rightarrow> seller_reply"
  current_year :: int
  getFullYear :: "jsval \<Rightarrow> int option"
  week_ahead :: string

section \<open>heuristicParse\<close>

definition categories :: "string list" where
  "categories = [''auricular'', ''auriculares'', ''celular'', ''notebook'', ''zapatilla'',
     ''zapatillas'', ''monitor'', ''televisor'', ''tv'']"

text \<open>\<^verbatim>\<open>for (const c of categories) if (p.includes(c)) { category = c; break; }\<close>\<close>

fun first_category :: "string \<Rightarrow> string list \<Rightarrow> jsval" where
  "first_category p [] = JNull"
| "first_category p (c # cs) = (if str_includes p c then JStr c else first_category p cs)"

text \<open>
  The price pattern \<^verbatim>\<open>/\$?\s?([0-9]{2,6})(?:\s?(usd|...|pesos))?/\<close>. Only its first
  group is read. The optional tail never makes a match fail and, coming after the
  greedy digits, never changes the group, so the functions below follow the
  pattern up to the group: the digits, then the optional white space before them,
  then the optional dollar sign, each tried greedily first and without it second,
  at the leftmost position that matches.
\<close>

definition match_digits :: "string \<Rightarrow> string option" where
  "match_digits s =
     (let ds = takeWhile is_digit (take 6 s) in if 2 \<le> length ds then Some ds else None)"

definition match_space_digits :: "string \<Rightarrow> string option" where
  "match_space_digits s =
     (case s of
        [] \<Rightarrow> match_digits s
      | c # cs \<Rightarrow>
          if is_space c
          then (case match_digits cs of Some ds \<Rightarrow> Some ds | None \<Rightarrow> match_digits s)
          else match_digits s)"

definition match_price_here :: "string \<Rightarrow> string option" where
  "match_price_here s =
     (case s of
        [] \<Rightarrow> match_space_digits s
      | c # cs \<Rightarrow>
          if c = CHR ''$''
          then (case match_space_digits cs of Some ds \<Rightarrow> Some ds
                | None \<Rightarrow> match_space_digits s)
          else match_space_digits s)"

fun priceMatch :: "string \<Rightarrow> string option" where
  "priceMatch [] = match_price_here []"
| "priceMatch (c # cs) =
     (case match_price_here (c # cs) of Some ds \<Rightarrow> Some ds | None \<Rightarrow> priceMatch cs)"

text \<open>
  \<^verbatim>\<open>p.match(/auricular|auriculares|celular|notebook|monitor|zapatilla|zapatillas|televisor|tv/)\<close>:
  at the leftmost position where an alternative matches, the first alternative that
  does.
\<close>

definition keyword_alternatives :: "string list" where
  "keyword_alternatives = [''auricular'', ''auriculares'', ''celular'', ''notebook'',
     ''monitor'', ''zapatilla'', ''zapatillas'', ''televisor'', ''tv'']"

fun keywordMatch :: "string \<Rightarrow> string option" where
  "keywordMatch [] = None"
| "keywordMatch (c # cs) =
     (case List.find (starts_with (c # cs)) keyword_alternatives of
        Some a \<Rightarrow> Some a
      | None \<Rightarrow> keywordMatch cs)"

definition rapido :: string where
  "rapido = ''r'' @ [CHR 0xE1] @ ''pido''"

definition entrega_rapida :: string where
  "entrega_rapida = ''entrega r'' @ [CHR 0xE1] @ ''pida''"

definition resenas :: string where
  "resenas = ''rese'' @ [CHR 0xF1] @ ''as''"

definition heuristicParse :: "world \<Rightarrow> string \<Rightarrow> jsval" where
  "heuristicParse w prompt =
     (let p = toLowerCase prompt;
          category = first_category p categories;
          budget_max = (case priceMatch p of
                          Some ds \<Rightarrow> JNum (of_nat (parseInt ds))
                        | None \<Rightarrow> JNull);
          latest_delivery_date =
            (if str_includes p ''semana'' \<or> str_includes p ''una semana''
                \<or> str_includes p ''dentro de una semana''
             then JStr (week_ahead w) else JNull);
          keywords =
            (case (if truthy category then category else JStr []) of
               JStr s \<Rightarrow> s | _ \<Rightarrow> [])
            @ '' '' @ (case keywordMatch p of Some m \<Rightarrow> m | None \<Rightarrow> []);
          priority_weights = JObj
            [(''price'',
                JNum (if str_includes p ''barato'' \<or> str_includes p ''lo mas barato''
                      then 7 / 10 else 4 / 10)),
             (''delivery_time'',
                JNum (if str_includes p rapido \<or> str_includes p entrega_rapida
                         \<or> truthy latest_delivery_date
                      then 3 / 10 else 15 / 100)),
             (''reviews'',
                JNum (if str_includes p resenas \<or> str_includes p ''opiniones''
                      then 25 / 100 else 1 / 10)),
             (''seller_reputation'', JNum (5 / 100))]
      in JObj
        [(''keywords'', js_or (JStr (trim keywords)) JNull),
         (''category'', js_or category JNull),
         (''must_have'', JArr []),
         (''nice_to_have'', JArr []),
         (''avoid'', JArr []),
         (''budget_min'', JNull),
         (''budget_max'', budget_max),
         (''latest_delivery_date'', latest_delivery_date),
         (''condition_preference'', JNull),
         (''priority_weights'', priority_weights),
         (''extra_instructions'', JStr prompt)])"

section \<open>Enrichment\<close>

text \<open>
  One result of the response. \<open>score\<close> is absent until the scoring loop assigns it;
  afterwards it is an integer, or NaN when the seller's registration date is not a
  date the runtime can read.
\<close>

datatype score_value = Unscored | NaN | Score int

record result =
  id_field :: jsval
  title :: jsval
  price :: "rat option"
  currency :: jsval
  thumbnail :: jsval
  permalink :: jsval
  condition :: jsval
  free_shipping :: jsval
  seller :: jsval
  raw :: item
  score :: score_value

text \<open>
  The seller lookup of one item: any failure (the request, a status that is not ok,
  a body that is not JSON) leaves \<open>sellerInfo\<close> null.
\<close>

definition sellerInfo :: "world \<Rightarrow> item \<Rightarrow> jsval" where
  "sellerInfo w it =
     (if truthy (item_seller it) \<and> truthy (get_prop (item_seller it) ''id'')
      then (case users w (get_prop (item_seller it) ''id'') of
              Seller_body s \<Rightarrow> s
            | _ \<Rightarrow> JNull)
      else JNull)"

definition enrich :: "world \<Rightarrow> item \<Rightarrow> result" where
  "enrich w it =
     (let s = sellerInfo w it
      in \<lparr> id_field = item_id it,
           title = item_title it,
           price = item_price it,
           currency = item_currency_id it,
           thumbnail = item_thumbnail it,
           permalink = item_permalink it,
           condition = item_condition it,
           free_shipping = js_or (opt_prop (item_shipping it) ''free_shipping'') (JBool False),
           seller =
             (if truthy s
              then JObj [(''id'', get_prop s ''id''),
                         (''nickname'', get_prop s ''nickname''),
                         (''registration_date'', get_prop s ''registration_date''),
                         (''permalink'', get_prop s ''permalink'')]
              else JObj [(''id'', js_or (opt_prop (item_seller it) ''id'') JNull)]),
           raw = it,
           score = Unscored \<rparr>)"

section \<open>Scoring\<close>

text \<open>
  \<^verbatim>\<open>r.price || d\<close>: the price, or \<open>d\<close> when the price is null, absent or 0. The field
  holds the number the marketplace wrote; what the runtime reads is its double.
\<close>

definition price_or :: "rat \<Rightarrow> result \<Rightarrow> rat" where
  "price_or d r = (case price r of None \<Rightarrow> d | Some x \<Rightarrow> if fl x \<noteq> 0 then fl x else d)"

text \<open>\<^verbatim>\<open>results.map(r => r.price || 0).filter(Boolean)\<close>\<close>

definition prices :: "result list \<Rightarrow> rat list" where
  "prices rs = filter (\<lambda>x. x \<noteq> 0) (map (price_or 0) rs)"

text \<open>\<^verbatim>\<open>prices.length ? Math.min(...prices) : 0\<close>\<close>

definition minPrice :: "result list \<Rightarrow> rat" where
  "minPrice rs = (case prices rs of [] \<Rightarrow> 0 | x # xs \<Rightarrow> fold min xs x)"

text \<open>\<^verbatim>\<open>prices.length ? Math.max(...prices) : minPrice || 1\<close>\<close>

definition maxPrice :: "result list \<Rightarrow> rat" where
  "maxPrice rs =
     (case prices rs of
        [] \<Rightarrow> (if minPrice rs \<noteq> 0 then minPrice rs else 1)
      | x # xs \<Rightarrow> fold max xs x)"

text \<open>
  \<^verbatim>\<open>const p = r.price || maxPrice;\<close>
  \<^verbatim>\<open>const scorePrice = maxPrice === minPrice ? 1 : 1 - ((p - minPrice) / (maxPrice - minPrice));\<close>
\<close>

definition scorePrice :: "rat \<Rightarrow> rat \<Rightarrow> result \<Rightarrow> rat" where
  "scorePrice mn mx r =
     (let p = price_or mx r
      in if mx = mn then 1 else fl (1 - fl (fl (p - mn) / fl (mx - mn))))"

definition scoreShipping :: "result \<Rightarrow> rat" where
  "scoreShipping r = (if truthy (free_shipping r) then 1 else fl (45 / 100))"

text \<open>
  The seller's score; \<open>None\<close> is NaN, which \<^verbatim>\<open>getFullYear\<close> returns for a date the
  runtime cannot read and which every later operation hands on. The two years are
  whole numbers, so their difference is the double of the exact difference.
  \<^verbatim>\<open>scoreSeller = Math.min(1, 0.4 + 0.06 * Math.min(age, 10))\<close>
\<close>

definition scoreSeller :: "world \<Rightarrow> result \<Rightarrow> rat option" where
  "scoreSeller w r =
     (if truthy (seller r) \<and> truthy (get_prop (seller r) ''registration_date'')
      then (case getFullYear w (get_prop (seller r) ''registration_date'') of
              None \<Rightarrow> None
            | Some year \<Rightarrow>
                (let age = fl (of_int (current_year w - year))
                 in Some (min 1 (fl (fl (4 / 10) + fl (fl (6 / 100) * min age 10))))))
      else Some (1 / 2))"

text \<open>
  \<^verbatim>\<open>Math.round\<close>: the integer nearest to the double itself, a half going up.
\<close>

definition Math_round :: "rat \<Rightarrow> int" where
  "Math_round x = \<lfloor>x + 1 / 2\<rfloor>"

text \<open>
  \<^verbatim>\<open>r.score = Math.round((0.6 * scorePrice + 0.2 * scoreShipping + 0.2 * scoreSeller) * 100)\<close>,
  every product and every sum rounded as the runtime rounds it, from left to right.
\<close>

definition score_of :: "world \<Rightarrow> rat \<Rightarrow> rat \<Rightarrow> result \<Rightarrow> score_value" where
  "score_of w mn mx r =
     (case scoreSeller w r of
        None \<Rightarrow> NaN
      | Some ss \<Rightarrow>
          Score (Math_round
            (fl (fl (fl (fl (fl (6 / 10) * scorePrice mn mx r)
                         + fl (fl (2 / 10) * scoreShipping r))
                     + fl (fl (2 / 10) * ss))
                 * 100))))"

text \<open>The scoring loop: \<^verbatim>\<open>results.forEach(r => { ...; r.score = ... })\<close>.\<close>

definition scoreAll :: "world \<Rightarrow> result list \<Rightarrow> result list" where
  "scoreAll w rs =
     (let mn = minPrice rs; mx = maxPrice rs
      in map (\<lambda>r. r\<lparr>score := score_of w mn mx r\<rparr>) rs)"

section \<open>Sorting\<close>

text \<open>\<^verbatim>\<open>r.score || 0\<close>: an absent score, NaN and 0 all read 0.\<close>

definition score_or_zero :: "result \<Rightarrow> int" where
  "score_or_zero r = (case score r of Score n \<Rightarrow> n | _ \<Rightarrow> 0)"

text \<open>The comparator \<^verbatim>\<open>(a, b) => (b.score || 0) - (a.score || 0)\<close>.\<close>

definition compare_results :: "result \<Rightarrow> result \<Rightarrow> int" where
  "compare_results a b = score_or_zero b - score_or_zero a"

text \<open>
  \<^verbatim>\<open>Array.prototype.sort\<close> is stable and orders by the comparator. For a comparator
  that is a difference of keys that fixes the outcome; it is computed here by
  insertion: an element goes before the first one it does not have to follow.
\<close>

fun insert_result :: "result \<Rightarrow> result list \<Rightarrow> result list" where
  "insert_result x [] = [x]"
| "insert_result x (y # ys) =
     (if compare_results x y \<le> 0 then x # y # ys else y # insert_result x ys)"

definition sort_results :: "result list \<Rightarrow> result list" where
  "sort_results rs = foldr insert_result rs []"

text \<open>The step the handler applies to the enriched results: score all, then sort.\<close>

definition score_and_sort :: "world \<Rightarrow> result list \<Rightarrow> result list" where
  "score_and_sort w rs = sort_results (scoreAll w rs)"

text \<open>A list of results is in descending order of \<^verbatim>\<open>score || 0\<close>.\<close>

definition descending :: "result list \<Rightarrow> bool" where
  "descending rs = sorted_wrt (\<lambda>a b. score_or_zero b \<le> score_or_zero a) rs"

section \<open>The follow-up question\<close>

definition fixed_question :: string where
  "fixed_question = [CHR 0xBF] @ ''Quieres priorizar env'' @ [CHR 0xED] @ ''o r''
     @ [CHR 0xE1] @ ''pido aunque cueste un poco m'' @ [CHR 0xE1] @ ''s?''"

definition repregunta :: "jsval \<Rightarrow> result list \<Rightarrow> string option" where
  "repregunta criteria results =
     (if \<not> truthy (get_prop criteria ''latest_delivery_date'')
         \<and> list_ex (\<lambda>r. free_shipping r = JBool False) results
      then Some fixed_question else None)"

section \<open>parsePromptWithOpenAI\<close>

datatype error =
    FetchFailed
  | OpenAIError nat
  | BodyNotJSON
  | TypeError
  | MalformedJSON

text \<open>
  \<^verbatim>\<open>text.match(/\{[\s\S]*\}/)\<close>: from the first opening brace to the last closing
  brace after it.
\<close>

definition json_span :: "string \<Rightarrow> string option" where
  "json_span t =
     (let from_brace = dropWhile (\<lambda>c. c \<noteq> CHR ''{'') t;
          to_brace = rev (dropWhile (\<lambda>c. c \<noteq> CHR ''}'') (rev from_brace))
      in if 2 \<le> length to_brace then Some to_brace else None)"

definition parsePromptWithOpenAI :: "world \<Rightarrow> string \<Rightarrow> error + jsval" where
  "parsePromptWithOpenAI w prompt =
     (case chat_completions w prompt of
        LLM_unreachable \<Rightarrow> Inl FetchFailed
      | LLM_not_ok status \<Rightarrow> Inl (OpenAIError status)
      | LLM_unreadable \<Rightarrow> Inl BodyNotJSON
      | LLM_body j \<Rightarrow>
          if nullish j then Inl TypeError
          else
            (case js_or (opt_prop (opt_prop (opt_index0 (get_prop j ''choices'')) ''message'')
                           ''content'')
                        (JStr ''{}'') of
               JStr t \<Rightarrow>
                 (let jsonText = (case json_span t of Some m \<Rightarrow> m | None \<Rightarrow> t)
                  in case JSON_parse w jsonText of
                       Some v \<Rightarrow> Inr v
                     | None \<Rightarrow> Inl MalformedJSON)
             | _ \<Rightarrow> Inl TypeError))"

section \<open>handler\<close>

text \<open>
  The request as the handler reads it: the method, and the prompt and the locale of
  the parsed body (the empty string stands for an absent prompt). The responses are
  the six the handler can send: the empty 200 of the preflight, 405, 400, the 500 of
  a failed marketplace search with the marketplace's text, the 500 of the outer
  \<^verbatim>\<open>catch\<close>, and the 200 with criteria, results and follow-up question.
\<close>

record request =
  req_method :: string
  req_prompt :: string
  req_locale :: string

datatype response =
    Preflight
  | MethodNotAllowed
  | PromptRequired
  | SearchError string
  | ServerError
  | Success jsval "result list" "string option"

text \<open>Step 1 of the handler: the language model when the key is set, else the heuristic.\<close>

definition extract_criteria :: "world \<Rightarrow> string \<Rightarrow> jsval" where
  "extract_criteria w prompt =
     (if OPENAI_API_KEY w
      then (case parsePromptWithOpenAI w prompt of
              Inr c \<Rightarrow> c
            | Inl e \<Rightarrow> heuristicParse w prompt)
      else heuristicParse w prompt)"

text \<open>
  \<^verbatim>\<open>locale === 'AR' ? 'MLA' : 'MLA'\<close>: every locale searches the same site, so the
  marketplace's reply below depends on the query alone.
\<close>

definition site :: "string \<Rightarrow> string" where
  "site locale = (if locale = ''AR'' then ''MLA'' else ''MLA'')"

text \<open>\<^verbatim>\<open>Array.isArray(mlJson.results) ? mlJson.results : []\<close>\<close>

fun items_of :: "search_body \<Rightarrow> item list" where
  "items_of (Body_results its) = its"
| "items_of b = []"

definition respond :: "world \<Rightarrow> jsval \<Rightarrow> item list \<Rightarrow> response" where
  "respond w criteria its =
     (let results = score_and_sort w (map (enrich w) its)
      in Success criteria results (repregunta criteria results))"

definition handler :: "world \<Rightarrow> request \<Rightarrow> response" where
  "handler w req =
     (if req_method req = ''OPTIONS'' then Preflight
      else if req_method req \<noteq> ''POST'' then MethodNotAllowed
      else
        (let prompt = trim (req_prompt req)
         in if prompt = [] then PromptRequired
            else
              (let criteria = extract_criteria w prompt
               in if nullish criteria then ServerError
                  else
                    (case sites_search w
                            (js_or (get_prop criteria ''keywords'')
                               (js_or (get_prop criteria ''category'') (JStr prompt))) of
                       Search_unreachable \<Rightarrow> ServerError
                     | Search_not_ok txt \<Rightarrow> SearchError txt
                     | Search_unreadable \<Rightarrow> ServerError
                     | Search_ok Body_null \<Rightarrow> ServerError
                     | Search_ok body \<Rightarrow> respond w criteria (items_of body)))))"

section \<open>The Criteria of the data model\<close>

text \<open>
  The specification's Criteria record as a predicate on values: an object with
  exactly the eleven fields, keywords, category and the delivery date a string or
  null, the three lists lists, the budgets whole numbers or null, the condition
  preference one of its three words or null, four numeric weights, and the extra
  instructions a string.
\<close>

definition string_or_null :: "jsval \<Rightarrow> bool" where
  "string_or_null v = (case v of JNull \<Rightarrow> True | JStr s \<Rightarrow> True | _ \<Rightarrow> False)"

definition integer_or_null :: "jsval \<Rightarrow> bool" where
  "integer_or_null v = (case v of JNull \<Rightarrow> True | JNum x \<Rightarrow> x = of_int \<lfloor>x\<rfloor> | _ \<Rightarrow> False)"

definition is_list :: "jsval \<Rightarrow> bool" where
  "is_list v = (case v of JArr xs \<Rightarrow> True | _ \<Rightarrow> False)"

definition is_number :: "jsval \<Rightarrow> bool" where
  "is_number v = (case v of JNum x \<Rightarrow> True | _ \<Rightarrow> False)"

definition is_string :: "jsval \<Rightarrow> bool" where
  "is_string v = (case v of JStr s \<Rightarrow> True | _ \<Rightarrow> False)"

definition condition_or_null :: "jsval \<Rightarrow> bool" where
  "condition_or_null v = (v = JNull \<or> v = JStr ''new'' \<or> v = JStr ''used'' \<or> v = JStr ''either'')"

definition wf_weights :: "jsval \<Rightarrow> bool" where
  "wf_weights v =
     (case v of
        JObj kvs \<Rightarrow>
          map fst kvs = [''price'', ''delivery_time'', ''reviews'', ''seller_reputation'']
          \<and> list_all is_number (map snd kvs)
      | _ \<Rightarrow> False)"

definition wf_criteria :: "jsval \<Rightarrow> bool" where
  "wf_criteria c =
     (case c of
        JObj kvs \<Rightarrow>
          map fst kvs = [''keywords'', ''category'', ''must_have'', ''nice_to_have'', ''avoid'',
            ''budget_min'', ''budget_max'', ''latest_delivery_date'', ''condition_preference'',
            ''priority_weights'', ''extra_instructions'']
          \<and> string_or_null (get_prop c ''keywords'')
          \<and> string_or_null (get_prop c ''category'')
          \<and> is_list (get_prop c ''must_have'')
          \<and> is_list (get_prop c ''nice_to_have'')
          \<and> is_list (get_prop c ''avoid'')
          \<and> integer_or_null (get_prop c ''budget_min'')
          \<and> integer_or_null (get_prop c ''budget_max'')
          \<and> string_or_null (get_prop c ''latest_delivery_date'')
          \<and> condition_or_null (get_prop c ''condition_preference'')
          \<and> wf_weights (get_prop c ''priority_weights'')
          \<and> is_string (get_prop c ''extra_instructions'')
      | _ \<Rightarrow> False)"

definition is_boolean :: "jsval \<Rightarrow> bool" where
  "is_boolean v = (case v of JBool b \<Rightarrow> True | _ \<Rightarrow> False)"

section \<open>Sample inputs\<close>

text \<open>Concrete items, sellers, an environment and a request, for the closed theorems.\<close>

definition sample_item :: "jsval \<Rightarrow> rat option \<Rightarrow> jsval \<Rightarrow> jsval \<Rightarrow> item" where
  "sample_item i p sh se =
     \<lparr> item_id = i, item_title = JStr ''notebook'', item_price = p,
       item_currency_id = JStr ''ARS'', item_thumbnail = JUndefined,
       item_permalink = JUndefined, item_condition = JStr ''new'',
       item_shipping = sh, item_seller = se \<rparr>"

definition item_A :: item where
  "item_A = sample_item (JStr ''MLA1'') (Some 200)
     (JObj [(''free_shipping'', JBool True)]) (JObj [(''id'', JNum 1)])"

definition item_B :: item where
  "item_B = sample_item (JStr ''MLA2'') (Some 100)
     (JObj [(''free_shipping'', JBool False)]) (JObj [(''id'', JNum 2)])"

definition item_C :: item where
  "item_C = sample_item (JStr ''MLA3'') None JNull JNull"

definition item_D :: item where
  "item_D = sample_item (JStr ''MLA4'') (Some 100)
     (JObj [(''free_shipping'', JBool False)]) (JObj [(''id'', JNum 9)])"

definition item_E :: item where
  "item_E = sample_item (JStr ''MLA5'') (Some 0)
     (JObj [(''free_shipping'', JBool True)]) JNull"

definition registered_2018 :: jsval where
  "registered_2018 = JStr ''2018-03-01T12:00:00.000-04:00''"

definition registered_2099 :: jsval where
  "registered_2099 = JStr ''2099-06-01T12:00:00.000-04:00''"

definition null_reply :: jsval where
  "null_reply = JObj [(''choices'',
     JArr [JObj [(''message'', JObj [(''role'', JStr ''assistant''), (''content'', JStr ''null'')])]])]"

definition sample_world :: world where
  "sample_world =
     \<lparr> OPENAI_API_KEY = False,
       chat_completions = (\<lambda>prompt. LLM_body null_reply),
       JSON_parse = (\<lambda>t. if t = ''null'' then Some JNull else None),
       sites_search = (\<lambda>q. Search_ok (Body_results [item_A, item_B, item_C])),
       users = (\<lambda>i. if i = JNum 1
                     then Seller_body (JObj [(''id'', JNum 1), (''nickname'', JStr ''ANA''),
                            (''registration_date'', registered_2018)])
                     else if i = JNum 9
                     then Seller_body (JObj [(''id'', JNum 9), (''nickname'', JStr ''LUIS''),
                            (''registration_date'', registered_2099)])
                     else Seller_not_ok),
       current_year = 2026,
       getFullYear = (\<lambda>v. if v = registered_2018 then Some 2018
                           else if v = registered_2099 then Some 2099 else None),
       week_ahead = ''2026-11-09'' \<rparr>"

definition batch_E :: "result list" where
  "batch_E = map (enrich sample_world) [item_E]"

definition batch_EBA :: "result list" where
  "batch_EBA = map (enrich sample_world) [item_E, item_B, item_A]"

definition batch_BA :: "result list" where
  "batch_BA = map (enrich sample_world) [item_B, item_A]"

definition batch_BB :: "result list" where
  "batch_BB = map (enrich sample_world) [item_B, item_B]"

text \<open>A batch whose prices are far apart: 1, 2, 3 and \<open>10 ^ 17\<close>.\<close>

definition priced_item :: "rat \<Rightarrow> item" where
  "priced_item p = sample_item (JStr ''MLA7'') (Some p) JNull JNull"

definition batch_wide :: "result list" where
  "batch_wide = map (enrich sample_world)
     [priced_item 1, priced_item 2, priced_item 3, priced_item (10 ^ 17)]"

text \<open>A batch priced 100, 200 and 2500, without shipping or seller data.\<close>

definition batch_cents :: "result list" where
  "batch_cents = map (enrich sample_world) [priced_item 100, priced_item 200, priced_item 2500]"

definition sample_results :: "result list" where
  "sample_results = score_and_sort sample_world (map (enrich sample_world) [item_A, item_B, item_C])"

definition item_F :: item where
  "item_F = sample_item (JStr ''MLA6'') (Some 150) (JObj [(''free_shipping'', JNum 1)]) JNull"

text \<open>
  A language-model reply whose JSON gives the delivery date as the empty string:
  the text \<^verbatim>\<open>{"latest_delivery_date":""}\<close>, and the value \<^verbatim>\<open>JSON.parse\<close> makes of it.
\<close>

definition empty_date_text :: string where
  "empty_date_text = ''{'' @ [CHR 0x22] @ ''latest_delivery_date'' @ [CHR 0x22] @ '':''
     @ [CHR 0x22, CHR 0x22] @ ''}''"

definition empty_date_criteria :: jsval where
  "empty_date_criteria = JObj [(''latest_delivery_date'', JStr [])]"

definition empty_date_world :: world where
  "empty_date_world = sample_world
     \<lparr> OPENAI_API_KEY := True,
       chat_completions := (\<lambda>prompt. LLM_body (JObj [(''choices'',
         JArr [JObj [(''message'', JObj [(''content'', JStr empty_date_text)])]])])),
       JSON_parse := (\<lambda>t. if t = empty_date_text then Some empty_date_criteria else None) \<rparr>"

definition sample_request :: request where
  "sample_request = \<lparr> req_method = ''POST'', req_prompt = ''notebook barato'', req_locale = ''AR'' \<rparr>"

section \<open>Properties of the rounding\<close>

lemma round_half_even_floor: "\<lfloor>z\<rfloor> \<le> round_half_even z \<and> round_half_even z \<le> \<lfloor>z\<rfloor> + 1"
  by (simp add: round_half_even_def Let_def)

lemma round_half_even_of_int [simp]: "round_half_even (of_int n) = n"
  by (simp add: round_half_even_def Let_def)

lemma round_half_even_ge:
  assumes "of_int n \<le> z"
  shows "n \<le> round_half_even z"
proof -
  from assms have "n \<le> \<lfloor>z\<rfloor>" by (simp add: le_floor_iff)
  with round_half_even_floor [of z] show ?thesis by simp
qed

lemma round_half_even_le:
  assumes "z \<le> of_int n"
  shows "round_half_even z \<le> n"
proof (cases "z = of_int n")
  case True
  then show ?thesis by simp
next
  case False
  with assms have "z < of_int n" by simp
  then have "\<lfloor>z\<rfloor> < n" by (simp add: floor_less_iff)
  with round_half_even_floor [of z] show ?thesis by simp
qed

lemma round_half_even_mono:
  assumes "z1 \<le> z2"
  shows "round_half_even z1 \<le> round_half_even z2"
proof (cases "\<lfloor>z1\<rfloor> = \<lfloor>z2\<rfloor>")
  case False
  with assms have "\<lfloor>z1\<rfloor> < \<lfloor>z2\<rfloor>" using floor_mono [OF assms] by simp
  with round_half_even_floor [of z1] round_half_even_floor [of z2] show ?thesis by simp
next
  case True
  with assms have "z1 - of_int \<lfloor>z1\<rfloor> \<le> z2 - of_int \<lfloor>z2\<rfloor>" by simp
  with True show ?thesis by (auto simp: round_half_even_def Let_def)
qed

lemma round_half_even_minus: "round_half_even (- z) = - round_half_even z"
proof (cases "z = of_int \<lfloor>z\<rfloor>")
  case True
  have "round_half_even (- of_int \<lfloor>z\<rfloor> :: rat) = - \<lfloor>z\<rfloor>"
    using round_half_even_of_int [of "- \<lfloor>z\<rfloor>"] by simp
  with True show ?thesis by (metis round_half_even_of_int)
next
  case False
  then have fm: "\<lfloor>- z\<rfloor> = - \<lfloor>z\<rfloor> - 1" by (simp add: floor_minus ceiling_altdef)
  from False have "z - of_int \<lfloor>z\<rfloor> \<noteq> 0" by simp
  then show ?thesis
    unfolding round_half_even_def Let_def fm
    by (auto simp: algebra_simps)
qed


lemma powi_pos: "(0::rat) < 2 powi k"
  by (simp add: power_int_def)

lemma powi_nat: "0 \<le> k \<Longrightarrow> (2::rat) powi k = of_int (2 ^ nat k)"
  by (simp add: power_int_def)

lemma powi_add: "(2::rat) powi (a + b) = 2 powi a * 2 powi b"
  by (simp add: power_int_add)

lemma powi_mono: "a \<le> b \<Longrightarrow> (2::rat) powi a \<le> 2 powi b"
  by (simp add: power_int_increasing)

lemma powi_less_imp: "(2::rat) powi a < 2 powi b \<Longrightarrow> a < b"
  using powi_mono [of b a] by (cases "a < b") auto

lemma ilog2_bounds:
  assumes "0 < x"
  shows "2 powi (ilog2 x) \<le> x \<and> x < 2 powi (ilog2 x + 1)"
proof (cases "1 \<le> x")
  case True
  define n where "n = nat \<lfloor>x\<rfloor>"
  define j where "j = floorlog 2 n"
  from True have n1: "1 \<le> n" by (simp add: n_def le_nat_iff le_floor_iff)
  then have fb: "2 ^ (j - 1) \<le> n \<and> n < 2 ^ j"
    unfolding j_def using floorlog_bounds [of n 2] by simp
  from n1 fb have j1: "1 \<le> j" by (cases j) auto
  have il: "ilog2 x = int j - 1" using True by (simp add: ilog2_def n_def j_def)
  from True have nx: "of_nat n \<le> x" and xn: "x < of_nat n + 1"
    unfolding n_def using floor_correct [of x] by (simp_all add: of_nat_nat)
  have e1: "(2::rat) powi (int j - 1) = 2 ^ (j - 1)"
    using j1 by (simp add: power_int_def nat_diff_distrib')
  have e2: "(2::rat) ^ (j - 1) \<le> of_nat n"
    using fb by (metis of_nat_le_iff of_nat_numeral of_nat_power)
  have e3: "(2::rat) powi (int j) = 2 ^ j" by (simp add: power_int_def)
  have e4: "of_nat n + 1 \<le> (2::rat) ^ j"
  proof -
    from fb have "n + 1 \<le> 2 ^ j" by simp
    then have "(of_nat (n + 1) :: rat) \<le> of_nat (2 ^ j)" by (simp only: of_nat_le_iff)
    then show ?thesis by simp
  qed
  have "2 powi (ilog2 x) \<le> x"
    unfolding il e1 using e2 nx by (rule order_trans)
  moreover have "x < 2 powi (ilog2 x + 1)"
    unfolding il using xn e4 e3 by simp
  ultimately show ?thesis ..
next
  case False
  define y where "y = 1 / x"
  define m where "m = nat (\<lceil>y\<rceil> - 1)"
  define j where "j = floorlog 2 m"
  from False assms have y1: "1 < y" by (simp add: y_def)
  then have c2: "2 \<le> \<lceil>y\<rceil>" by (simp add: le_ceiling_iff)
  then have m1: "1 \<le> m" unfolding m_def by linarith
  then have fb: "2 ^ (j - 1) \<le> m \<and> m < 2 ^ j"
    unfolding j_def using floorlog_bounds [of m 2] by simp
  from m1 fb have j1: "1 \<le> j" by (cases j) auto
  have il: "ilog2 x = - int j" using False by (simp add: ilog2_def m_def j_def y_def)
  have my: "of_nat m < y" and ym: "y \<le> of_nat m + 1"
  proof -
    have "of_int (\<lceil>y\<rceil> - 1) < y" by (simp add: ceiling_correct)
    moreover have "y \<le> of_int \<lceil>y\<rceil>" by (simp add: ceiling_correct)
    moreover have "(of_nat m :: rat) = of_int (\<lceil>y\<rceil> - 1)"
    proof -
      from c2 have "0 \<le> \<lceil>y\<rceil> - 1" by linarith
      then show ?thesis unfolding m_def by (simp only: of_nat_nat)
    qed
    ultimately show "of_nat m < y" and "y \<le> of_nat m + 1" by simp_all
  qed
  have up: "y \<le> 2 ^ j"
  proof -
    from fb have "m + 1 \<le> 2 ^ j" by simp
    then have "(of_nat (m + 1) :: rat) \<le> of_nat (2 ^ j)" by (simp only: of_nat_le_iff)
    with ym show ?thesis by simp
  qed
  have lo: "2 ^ (j - 1) < y"
  proof -
    have "(2::rat) ^ (j - 1) \<le> of_nat m"
      using fb by (metis of_nat_le_iff of_nat_numeral of_nat_power)
    then show ?thesis using my by (rule le_less_trans)
  qed
  have p1: "(2::rat) powi (- int j) = 1 / 2 ^ j"
    by (simp add: power_int_def field_simps)
  have p2: "(2::rat) powi (- int j + 1) = 1 / 2 ^ (j - 1)"
    using j1 by (simp add: power_int_def field_simps nat_diff_distrib') 
  have "1 / 2 ^ j \<le> x"
    using up assms by (simp add: y_def field_simps)
  moreover have "x < 1 / 2 ^ (j - 1)"
    using lo assms by (simp add: y_def field_simps)
  ultimately show ?thesis using il p1 p2 by simp
qed


lemma ilog2_mono:
  assumes "0 < x" and "x \<le> y"
  shows "ilog2 x \<le> ilog2 y"
proof -
  from assms have "0 < y" by simp
  from ilog2_bounds [OF assms(1)] ilog2_bounds [OF this] assms(2)
  have "(2::rat) powi (ilog2 x) < 2 powi (ilog2 y + 1)" by simp
  then have "ilog2 x < ilog2 y + 1" by (rule powi_less_imp)
  then show ?thesis by simp
qed

lemma quantum_exponent: "quantum x = 2 powi (exponent x)"
  by (simp add: quantum_def)

lemma quantum_pos: "0 < quantum x"
  by (simp add: quantum_exponent powi_pos)

lemma quantum_minus: "quantum (- x) = quantum x"
  by (simp add: quantum_def exponent_def)

lemma fl_minus: "fl (- x) = - fl x"
  by (simp add: fl_def quantum_minus round_half_even_minus)

lemma fl_0 [simp]: "fl 0 = 0"
  by (simp add: fl_def)

text \<open>The rounded value is within half a quantum of the exact one.\<close>

lemma round_half_even_nearest: "\<bar>of_int (round_half_even z) - z\<bar> \<le> 1 / 2"
proof -
  have "of_int \<lfloor>z\<rfloor> \<le> z" and "z < of_int \<lfloor>z\<rfloor> + 1" by linarith+
  then show ?thesis by (auto simp: round_half_even_def Let_def abs_le_iff)
qed

lemma fl_nearest: "\<bar>fl x - x\<bar> \<le> quantum x / 2"
proof (cases "x = 0")
  case True
  then show ?thesis using quantum_pos [of x] by simp
next
  case False
  let ?q = "quantum x"
  have q: "0 < ?q" by (rule quantum_pos)
  have "fl x - x = (of_int (round_half_even (x / ?q)) - x / ?q) * ?q"
    using False q by (simp add: fl_def algebra_simps)
  then have "\<bar>fl x - x\<bar> = \<bar>of_int (round_half_even (x / ?q)) - x / ?q\<bar> * ?q"
    using q by (simp add: abs_mult)
  also have "\<dots> \<le> 1 / 2 * ?q"
    using round_half_even_nearest [of "x / ?q"] q by (rule mult_right_mono [OF _ less_imp_le])
  finally show ?thesis by simp
qed

text \<open>A multiple of the quantum above (below) \<open>x\<close> is above (below) \<open>fl x\<close>.\<close>

lemma fl_le_multiple:
  assumes "x \<le> of_int n * quantum x"
  shows "fl x \<le> of_int n * quantum x"
proof (cases "x = 0")
  case True
  with assms quantum_pos [of x] show ?thesis by (simp add: zero_le_mult_iff)
next
  case False
  from assms quantum_pos [of x] have "x / quantum x \<le> of_int n" by (simp add: field_simps)
  then have "round_half_even (x / quantum x) \<le> n" by (rule round_half_even_le)
  then have "(of_int (round_half_even (x / quantum x)) :: rat) \<le> of_int n" by simp
  with quantum_pos [of x] False show ?thesis by (simp add: fl_def)
qed

lemma fl_ge_multiple:
  assumes "of_int n * quantum x \<le> x"
  shows "of_int n * quantum x \<le> fl x"
proof (cases "x = 0")
  case True
  with assms quantum_pos [of x] show ?thesis by (simp add: mult_le_0_iff)
next
  case False
  from assms quantum_pos [of x] have "of_int n \<le> x / quantum x" by (simp add: field_simps)
  then have "n \<le> round_half_even (x / quantum x)" by (rule round_half_even_ge)
  then have "(of_int n :: rat) \<le> of_int (round_half_even (x / quantum x))" by simp
  with quantum_pos [of x] False show ?thesis by (simp add: fl_def)
qed

lemma fl_nonneg: "0 \<le> x \<Longrightarrow> 0 \<le> fl x"
  using fl_ge_multiple [of 0 x] by simp

lemma powi_multiple:
  assumes "a \<le> b"
  shows "(2::rat) powi b = of_int (2 ^ nat (b - a)) * 2 powi a"
proof -
  have "(2::rat) powi b = 2 powi (b - a) * 2 powi a"
    using powi_add [of "b - a" a] by simp
  with assms show ?thesis by (simp add: powi_nat)
qed

lemma fl_mono_pos:
  assumes "0 < x" and "x \<le> y"
  shows "fl x \<le> fl y"
proof -
  from assms have y: "0 < y" by simp
  have ee: "exponent x \<le> exponent y"
    using ilog2_mono [OF assms] assms y by (simp add: exponent_def)
  show ?thesis
  proof (cases "exponent x = exponent y")
    case True
    then have q: "quantum x = quantum y" by (simp add: quantum_exponent)
    from assms(2) quantum_pos [of y] have "x / quantum y \<le> y / quantum y"
      by (simp add: divide_right_mono)
    then have "round_half_even (x / quantum y) \<le> round_half_even (y / quantum y)"
      by (rule round_half_even_mono)
    then have "(of_int (round_half_even (x / quantum y)) :: rat)
        \<le> of_int (round_half_even (y / quantum y))" by simp
    with quantum_pos [of y] assms(1) y q show ?thesis
      by (simp add: fl_def mult_right_mono)
  next
    case False
    with ee have lt: "exponent x < exponent y" by simp
    then have ey: "exponent y = ilog2 y - 52"
      using y unfolding exponent_def by (simp add: abs_of_pos) linarith
    have "ilog2 x - 52 \<le> exponent x" using assms(1) by (simp add: exponent_def)
    with lt ey have kk: "ilog2 x + 1 \<le> ilog2 y" by simp
    define B :: rat where "B = 2 powi (ilog2 y)"
    have "x < 2 powi (ilog2 x + 1)" using ilog2_bounds [OF assms(1)] by simp
    also have "\<dots> \<le> B" unfolding B_def using kk by (rule powi_mono)
    finally have xB: "x \<le> B" by simp
    have By: "B \<le> y" unfolding B_def using ilog2_bounds [OF y] by simp
    have "exponent x \<le> ilog2 y" using lt ey by simp
    from powi_multiple [OF this]
    have Bx: "B = of_int (2 ^ nat (ilog2 y - exponent x)) * quantum x"
      by (simp add: B_def quantum_exponent)
    have "exponent y \<le> ilog2 y" using ey by simp
    from powi_multiple [OF this]
    have By': "B = of_int (2 ^ nat (ilog2 y - exponent y)) * quantum y"
      by (simp add: B_def quantum_exponent)
    have "fl x \<le> B" using fl_le_multiple [of x "2 ^ nat (ilog2 y - exponent x)"] xB Bx by simp
    moreover have "B \<le> fl y"
      using fl_ge_multiple [of "2 ^ nat (ilog2 y - exponent y)" y] By By' by simp
    ultimately show ?thesis by simp
  qed
qed

lemma fl_mono:
  assumes "x \<le> y"
  shows "fl x \<le> fl y"
proof -
  consider "0 < x" | "x \<le> 0" "0 \<le> y" | "y < 0" by linarith
  then show ?thesis
  proof cases
    case 1
    then show ?thesis using assms by (rule fl_mono_pos)
  next
    case 2
    from 2(1) have "0 \<le> fl (- x)" using fl_nonneg [of "- x"] by simp
    then have "fl x \<le> 0" by (simp add: fl_minus)
    moreover have "0 \<le> fl y" using 2(2) by (rule fl_nonneg)
    ultimately show ?thesis by simp
  next
    case 3
    then have "0 < - y" and "- y \<le> - x" using assms by simp_all
    then have "fl (- y) \<le> fl (- x)" by (rule fl_mono_pos)
    then show ?thesis by (simp add: fl_minus)
  qed
qed

text \<open>
  Every double is a whole multiple of the smallest subnormal number, so two different
  doubles are at least that far apart and their rounded difference is not zero.
\<close>

lemma fl_grid: "\<exists>n. fl x = of_int n * 2 powi (- 1074)"
proof -
  have "- 1074 \<le> exponent x" by (simp add: exponent_def)
  from powi_multiple [OF this]
  have q: "quantum x = of_int (2 ^ nat (exponent x + 1074)) * 2 powi (- 1074)"
    by (simp add: quantum_exponent)
  show ?thesis
  proof (cases "x = 0")
    case True
    then have "fl x = of_int 0 * 2 powi (- 1074)" by simp
    then show ?thesis ..
  next
    case False
    then have "fl x = of_int (round_half_even (x / quantum x) * 2 ^ nat (exponent x + 1074))
        * 2 powi (- 1074)"
      using q by (simp add: fl_def)
    then show ?thesis ..
  qed
qed

lemma fl_pos:
  assumes "2 powi (- 1074) \<le> z"
  shows "0 < fl z"
proof -
  from assms powi_pos [of "- 1074"] have z: "0 < z" by simp
  from ilog2_bounds [OF z] assms have "(2::rat) powi (- 1074) < 2 powi (ilog2 z + 1)" by simp
  then have "- 1074 < ilog2 z + 1" by (rule powi_less_imp)
  then have "exponent z \<le> ilog2 z" using z by (simp add: exponent_def)
  from powi_multiple [OF this]
  have B: "2 powi (ilog2 z) = of_int (2 ^ nat (ilog2 z - exponent z)) * quantum z"
    by (simp add: quantum_exponent)
  have "2 powi (ilog2 z) \<le> z" using ilog2_bounds [OF z] by simp
  then have "2 powi (ilog2 z) \<le> fl z"
    using fl_ge_multiple [of "2 ^ nat (ilog2 z - exponent z)" z] B by simp
  then show ?thesis by (rule less_le_trans [OF powi_pos])
qed

lemma fl_difference_pos:
  assumes "fl a < fl b"
  shows "0 < fl (fl b - fl a)"
proof -
  from fl_grid [of a] obtain m where m: "fl a = of_int m * 2 powi (- 1074)" ..
  from fl_grid [of b] obtain n where n: "fl b = of_int n * 2 powi (- 1074)" ..
  from assms m n powi_pos [of "- 1074"] have "(of_int m :: rat) < of_int n" by simp
  then have "m + 1 \<le> n" by simp
  then have "(of_int (m + 1) :: rat) \<le> of_int n" by (simp only: of_int_le_iff)
  then have "of_int (m + 1) * 2 powi (- 1074) \<le> of_int n * (2::rat) powi (- 1074)"
    using powi_pos [of "- 1074"] by (simp only: mult_le_cancel_right_pos)
  then have "2 powi (- 1074) \<le> fl b - fl a" unfolding m n by (simp add: algebra_simps)
  then show ?thesis by (rule fl_pos)
qed

text \<open>
  Rules that let the simplifier compute the rounding of a number given by numerals.
\<close>

lemma floor_rat_numeral: "\<lfloor>numeral a / numeral b :: rat\<rfloor> = numeral a div numeral b"
  using floor_divide_of_int_eq [of "numeral a" "numeral b", where ?'a = rat] by simp

lemma floor_rat_neg_numeral:
  "\<lfloor>- (numeral a / numeral b) :: rat\<rfloor> = - numeral a div numeral b"
  using floor_divide_of_int_eq [of "- numeral a" "numeral b", where ?'a = rat] by simp

lemma powi_eval:
  "(2::rat) powi k = (if 0 \<le> k then of_int (2 ^ nat k) else 1 / of_int (2 ^ nat (- k)))"
  by (simp add: power_int_def field_simps)

lemmas fl_eval = fl_def quantum_def exponent_def ilog2_def round_half_even_def Let_def
  compute_floorlog floor_rat_numeral floor_rat_neg_numeral powi_eval ceiling_def

lemma fl_1 [simp]: "fl 1 = 1"
  by (simp add: fl_eval)

lemma double_whole:
  "fl 2 = 2" "fl 3 = 3" "fl 100 = 100" "fl 200 = 200" "fl 2500 = 2500"
  "fl (10 ^ 17) = 10 ^ 17"
  by (simp_all add: fl_eval)

lemma fl_unit:
  assumes "0 \<le> x" and "x \<le> 1"
  shows "0 \<le> fl x \<and> fl x \<le> 1"
  using fl_mono [OF assms(1)] fl_mono [OF assms(2)] by simp

section \<open>Properties of heuristicParse\<close>

lemma heuristicParse_extra_instructions:
  "get_prop (heuristicParse w prompt) ''extra_instructions'' = JStr prompt"
  by (simp add: heuristicParse_def Let_def)

section \<open>Properties of the sort\<close>

lemma mset_insert_result: "mset (insert_result x ys) = add_mset x (mset ys)"
  by (induction ys) auto

lemma mset_sort_results: "mset (sort_results rs) = mset rs"
  by (induction rs) (auto simp: sort_results_def mset_insert_result)

lemma set_sort_results: "set (sort_results rs) = set rs"
  using mset_sort_results [of rs] by (metis set_mset_mset)

lemma set_insert_result: "set (insert_result x ys) = insert x (set ys)"
  using mset_insert_result [of x ys] by (metis set_mset_mset set_mset_add_mset_insert)

lemma descending_insert_result:
  "descending ys \<Longrightarrow> descending (insert_result x ys)"
  by (induction ys) (auto simp: descending_def compare_results_def set_insert_result)

lemma descending_sort_results: "descending (sort_results rs)"
proof (induction rs)
  case Nil
  show ?case by (simp add: sort_results_def descending_def)
next
  case (Cons r rs)
  then show ?case
    using descending_insert_result [of "sort_results rs" r] by (simp add: sort_results_def)
qed

lemma insert_result_front:
  "\<forall>y \<in> set ys. score_or_zero y \<le> score_or_zero x \<Longrightarrow> insert_result x ys = x # ys"
  by (cases ys) (auto simp: compare_results_def)

lemma sort_results_descending: "descending rs \<Longrightarrow> sort_results rs = rs"
proof (induction rs)
  case Nil
  show ?case by (simp add: sort_results_def)
next
  case (Cons r rs)
  from Cons.prems have d: "descending rs" and f: "\<forall>y \<in> set rs. score_or_zero y \<le> score_or_zero r"
    by (auto simp: descending_def)
  have "sort_results (r # rs) = insert_result r (sort_results rs)"
    by (simp add: sort_results_def)
  also have "\<dots> = insert_result r rs" using Cons.IH [OF d] by simp
  also have "\<dots> = r # rs" using f by (rule insert_result_front)
  finally show ?case .
qed

lemma filter_insert_result_other:
  "score_or_zero x \<noteq> k \<Longrightarrow>
   filter (\<lambda>r. score_or_zero r = k) (insert_result x ys) = filter (\<lambda>r. score_or_zero r = k) ys"
  by (induction ys) auto

lemma filter_insert_result_same:
  "descending ys \<Longrightarrow>
   filter (\<lambda>r. score_or_zero r = score_or_zero x) (insert_result x ys)
     = x # filter (\<lambda>r. score_or_zero r = score_or_zero x) ys"
proof (induction ys)
  case Nil
  show ?case by simp
next
  case (Cons y ys)
  show ?case
  proof (cases "compare_results x y \<le> 0")
    case True
    then show ?thesis by simp
  next
    case False
    then have "score_or_zero y \<noteq> score_or_zero x" by (simp add: compare_results_def)
    moreover from Cons.prems have "descending ys" by (simp add: descending_def)
    ultimately show ?thesis using False Cons.IH by simp
  qed
qed

lemma sort_results_stable:
  "filter (\<lambda>r. score_or_zero r = k) (sort_results rs) = filter (\<lambda>r. score_or_zero r = k) rs"
proof (induction rs)
  case Nil
  show ?case by (simp add: sort_results_def)
next
  case (Cons r rs)
  have unfold: "sort_results (r # rs) = insert_result r (sort_results rs)"
    by (simp add: sort_results_def)
  show ?case
  proof (cases "score_or_zero r = k")
    case True
    then show ?thesis
      using filter_insert_result_same [OF descending_sort_results, of r rs] Cons.IH unfold
      by simp
  next
    case False
    then show ?thesis
      using filter_insert_result_other [of r k "sort_results rs"] Cons.IH unfold by simp
  qed
qed

section \<open>Properties of the price normalisation\<close>

lemma price_score_update [simp]: "price (r\<lparr>score := s\<rparr>) = price r"
  by simp

lemma price_or_score_update: "price_or d (r\<lparr>score := s\<rparr>) = price_or d r"
  by (simp add: price_or_def)

lemma prices_scoreAll: "prices (scoreAll w rs) = prices rs"
  by (simp add: prices_def scoreAll_def Let_def comp_def price_or_score_update)

lemma set_prices: "set (prices rs) = {x. x \<noteq> 0 \<and> x \<in> price_or 0 ` set rs}"
  by (auto simp: prices_def)

lemma minPrice_Min: "minPrice rs = (if prices rs = [] then 0 else Min (set (prices rs)))"
proof (cases "prices rs")
  case Nil
  then show ?thesis by (simp add: minPrice_def)
next
  case (Cons x xs)
  have "fold min xs x = Min (set (x # xs))" by (rule Min.set_eq_fold [symmetric])
  with Cons show ?thesis by (simp add: minPrice_def)
qed

lemma maxPrice_Max: "maxPrice rs = (if prices rs = [] then 1 else Max (set (prices rs)))"
proof (cases "prices rs")
  case Nil
  then show ?thesis by (simp add: maxPrice_def minPrice_def)
next
  case (Cons x xs)
  have "fold max xs x = Max (set (x # xs))" by (rule Max.set_eq_fold [symmetric])
  with Cons show ?thesis by (simp add: maxPrice_def)
qed

lemma prices_cong:
  assumes "set xs = set ys"
  shows "set (prices xs) = set (prices ys)" and "prices xs = [] \<longleftrightarrow> prices ys = []"
proof -
  show eq: "set (prices xs) = set (prices ys)" using assms by (simp add: set_prices)
  have "set (prices xs) = {} \<longleftrightarrow> set (prices ys) = {}" using eq by simp
  then show "prices xs = [] \<longleftrightarrow> prices ys = []" by simp
qed

lemma minPrice_cong: "set xs = set ys \<Longrightarrow> minPrice xs = minPrice ys"
  using prices_cong [of xs ys] by (simp add: minPrice_Min)

lemma maxPrice_cong: "set xs = set ys \<Longrightarrow> maxPrice xs = maxPrice ys"
  using prices_cong [of xs ys] by (simp add: maxPrice_Max)

lemma minPrice_le_maxPrice: "minPrice rs \<le> maxPrice rs"
proof (cases "prices rs")
  case Nil
  then show ?thesis by (simp add: minPrice_Min maxPrice_Max)
next
  case (Cons x xs)
  then have ne: "prices rs \<noteq> []" and mem: "x \<in> set (prices rs)" by simp_all
  from mem have lo: "Min (set (prices rs)) \<le> x" and hi: "x \<le> Max (set (prices rs))"
    by simp_all
  from lo hi have "Min (set (prices rs)) \<le> Max (set (prices rs))" by (rule order_trans)
  with ne show ?thesis by (simp only: minPrice_Min maxPrice_Max if_False)
qed

lemma price_between:
  assumes "r \<in> set rs"
  shows "minPrice rs \<le> price_or (maxPrice rs) r \<and> price_or (maxPrice rs) r \<le> maxPrice rs"
proof (cases "price_or 0 r = 0")
  case True
  then have "price_or (maxPrice rs) r = maxPrice rs"
    by (auto simp: price_or_def split: option.splits if_splits)
  then show ?thesis using minPrice_le_maxPrice [of rs] by simp
next
  case False
  then have eq: "price_or (maxPrice rs) r = price_or 0 r"
    by (auto simp: price_or_def split: option.splits if_splits)
  from False assms have mem: "price_or 0 r \<in> set (prices rs)"
    by (auto simp: set_prices)
  then have ne: "prices rs \<noteq> []" by auto
  from mem have "Min (set (prices rs)) \<le> price_or 0 r" and "price_or 0 r \<le> Max (set (prices rs))"
    by simp_all
  with ne eq show ?thesis by (simp add: minPrice_Min maxPrice_Max)
qed

lemma price_or_double: "\<exists>a. price_or 0 r = fl a"
proof (cases "price_or 0 r = 0")
  case True
  then have "price_or 0 r = fl 0" by simp
  then show ?thesis ..
next
  case False
  then obtain x where "price r = Some x" and "price_or 0 r = fl x"
    by (auto simp: price_or_def split: option.splits if_splits)
  then show ?thesis by blast
qed

lemma minPrice_double: "\<exists>a. minPrice rs = fl a"
proof (cases "prices rs = []")
  case True
  then have "minPrice rs = fl 0" by (simp add: minPrice_Min)
  then show ?thesis ..
next
  case False
  then have "Min (set (prices rs)) \<in> set (prices rs)" by simp
  then obtain r where "Min (set (prices rs)) = price_or 0 r" by (auto simp: set_prices)
  with False price_or_double [of r] show ?thesis by (simp add: minPrice_Min)
qed

lemma maxPrice_double: "\<exists>a. maxPrice rs = fl a"
proof (cases "prices rs = []")
  case True
  then have "maxPrice rs = fl 1" by (simp add: maxPrice_Max)
  then show ?thesis ..
next
  case False
  then have "Max (set (prices rs)) \<in> set (prices rs)" by simp
  then obtain r where "Max (set (prices rs)) = price_or 0 r" by (auto simp: set_prices)
  with False price_or_double [of r] show ?thesis by (simp add: maxPrice_Max)
qed

text \<open>
  The divisor of the price score: when the maximum and the minimum differ, their
  rounded difference is a positive double, so the division is never one by zero.
\<close>

lemma price_spread_pos:
  assumes "maxPrice rs \<noteq> minPrice rs"
  shows "0 < fl (maxPrice rs - minPrice rs)"
proof -
  from minPrice_double [of rs] obtain a where a: "minPrice rs = fl a" ..
  from maxPrice_double [of rs] obtain b where b: "maxPrice rs = fl b" ..
  from assms minPrice_le_maxPrice [of rs] have "fl a < fl b" unfolding a b by simp
  then show ?thesis unfolding a b by (rule fl_difference_pos)
qed

lemma scorePrice_unit:
  assumes "r \<in> set rs"
  shows "0 \<le> scorePrice (minPrice rs) (maxPrice rs) r \<and> scorePrice (minPrice rs) (maxPrice rs) r \<le> 1"
proof (cases "maxPrice rs = minPrice rs")
  case True
  then show ?thesis by (simp add: scorePrice_def)
next
  case False
  let ?n = "fl (price_or (maxPrice rs) r - minPrice rs)"
  let ?d = "fl (maxPrice rs - minPrice rs)"
  from price_between [OF assms]
  have lo: "0 \<le> price_or (maxPrice rs) r - minPrice rs"
    and hi: "price_or (maxPrice rs) r - minPrice rs \<le> maxPrice rs - minPrice rs" by simp_all
  from lo have n0: "0 \<le> ?n" by (rule fl_nonneg)
  from hi have nd: "?n \<le> ?d" by (rule fl_mono)
  have d: "0 < ?d" using False by (rule price_spread_pos)
  from n0 nd d have "0 \<le> ?n / ?d" and "?n / ?d \<le> 1" by simp_all
  then have "0 \<le> fl (?n / ?d) \<and> fl (?n / ?d) \<le> 1" by (rule fl_unit)
  then have "0 \<le> 1 - fl (?n / ?d)" and "1 - fl (?n / ?d) \<le> 1" by simp_all
  then have "0 \<le> fl (1 - fl (?n / ?d)) \<and> fl (1 - fl (?n / ?d)) \<le> 1" by (rule fl_unit)
  with False show ?thesis by (simp add: scorePrice_def Let_def)
qed

section \<open>Properties of the scoring loop\<close>

lemma scorePrice_score_update: "scorePrice mn mx (r\<lparr>score := s\<rparr>) = scorePrice mn mx r"
  by (simp add: scorePrice_def price_or_score_update)

lemma scoreShipping_score_update: "scoreShipping (r\<lparr>score := s\<rparr>) = scoreShipping r"
  by (simp add: scoreShipping_def)

lemma scoreSeller_score_update: "scoreSeller w (r\<lparr>score := s\<rparr>) = scoreSeller w r"
  by (simp add: scoreSeller_def)

lemma score_of_score_update: "score_of w mn mx (r\<lparr>score := s\<rparr>) = score_of w mn mx r"
  by (simp add: score_of_def scorePrice_score_update scoreShipping_score_update
      scoreSeller_score_update split: option.splits)

lemma set_scoreAll:
  "set (scoreAll w rs) = (\<lambda>r. r\<lparr>score := score_of w (minPrice rs) (maxPrice rs) r\<rparr>) ` set rs"
  by (simp add: scoreAll_def Let_def)

lemma minPrice_scoreAll: "minPrice (scoreAll w rs) = minPrice rs"
  by (simp add: minPrice_Min prices_scoreAll)

lemma maxPrice_scoreAll: "maxPrice (scoreAll w rs) = maxPrice rs"
  by (simp add: maxPrice_Max prices_scoreAll)

lemma minPrice_score_and_sort: "minPrice (score_and_sort w rs) = minPrice rs"
  using minPrice_cong [OF set_sort_results, of "scoreAll w rs"]
  by (simp add: score_and_sort_def minPrice_scoreAll)

lemma maxPrice_score_and_sort: "maxPrice (score_and_sort w rs) = maxPrice rs"
  using maxPrice_cong [OF set_sort_results, of "scoreAll w rs"]
  by (simp add: score_and_sort_def maxPrice_scoreAll)

lemma scoreAll_fixed:
  assumes "set ys \<subseteq> set (scoreAll w rs)"
    and "minPrice ys = minPrice rs" and "maxPrice ys = maxPrice rs"
  shows "scoreAll w ys = ys"
proof -
  have "map (\<lambda>r. r\<lparr>score := score_of w (minPrice rs) (maxPrice rs) r\<rparr>) ys = ys"
  proof (rule map_idI)
    fix y assume "y \<in> set ys"
    with assms(1) obtain r where "y = r\<lparr>score := score_of w (minPrice rs) (maxPrice rs) r\<rparr>"
      by (auto simp: set_scoreAll)
    then show "y\<lparr>score := score_of w (minPrice rs) (maxPrice rs) y\<rparr> = y"
      by (simp add: score_of_score_update)
  qed
  with assms(2,3) show ?thesis by (simp add: scoreAll_def Let_def)
qed

text \<open>
  Claim C9. Scoring and sorting is idempotent: applied a second time to the list it
  returned (in the same environment, so with the same reading of the clock), the
  step gives every result the score it already has and leaves the order as it is.
\<close>

theorem score_and_sort_idempotent:
  "score_and_sort w (score_and_sort w rs) = score_and_sort w rs"
proof -
  let ?ys = "score_and_sort w rs"
  have "set ?ys \<subseteq> set (scoreAll w rs)"
    by (simp add: score_and_sort_def set_sort_results)
  then have rescored: "scoreAll w ?ys = ?ys"
    by (rule scoreAll_fixed) (rule minPrice_score_and_sort, rule maxPrice_score_and_sort)
  have "descending ?ys" by (simp add: score_and_sort_def descending_sort_results)
  then have "sort_results ?ys = ?ys" by (rule sort_results_descending)
  with rescored show ?thesis by (simp add: score_and_sort_def)
qed

section \<open>The heuristic extractor on concrete prompts\<close>

lemmas string_defs = toLowerCase_def lower_char_def code_unit_def starts_with_def trim_def
  is_space_def is_digit_def parseInt_def

lemmas heuristic_defs = heuristicParse_def Let_def categories_def keyword_alternatives_def
  js_or_def match_price_here_def match_space_digits_def match_digits_def rapido_def
  entrega_rapida_def resenas_def

lemma first_category_string_or_null: "string_or_null (first_category p cs)"
  by (induction cs) (simp_all add: string_or_null_def)

lemma category_or_null: "string_or_null (js_or (first_category p cs) JNull)"
  using first_category_string_or_null [of p cs] by (simp add: js_or_def string_or_null_def)

lemma keywords_or_null: "string_or_null (js_or (JStr s) JNull)"
  by (simp add: js_or_def string_or_null_def)

lemma budget_integer_or_null:
  "integer_or_null (case m of Some ds \<Rightarrow> JNum (of_nat (parseInt ds)) | None \<Rightarrow> JNull)"
  by (cases m) (simp_all add: integer_or_null_def)

lemma wf_criteria_heuristicParse: "wf_criteria (heuristicParse w prompt)"
  using category_or_null [of "toLowerCase prompt" categories]
    keywords_or_null budget_integer_or_null [of "priceMatch (toLowerCase prompt)"]
  by (simp add: wf_criteria_def heuristicParse_def Let_def is_list_def integer_or_null_def
      condition_or_null_def wf_weights_def is_number_def is_string_def)
     (simp add: string_or_null_def)

lemma heuristicParse_notebook_barata:
  "heuristicParse w ''notebook barata hasta $300'' = JObj
     [(''keywords'', JStr ''notebook notebook''), (''category'', JStr ''notebook''),
      (''must_have'', JArr []), (''nice_to_have'', JArr []), (''avoid'', JArr []),
      (''budget_min'', JNull), (''budget_max'', JNum 300),
      (''latest_delivery_date'', JNull), (''condition_preference'', JNull),
      (''priority_weights'', JObj
         [(''price'', JNum (4 / 10)), (''delivery_time'', JNum (15 / 100)),
          (''reviews'', JNum (1 / 10)), (''seller_reputation'', JNum (5 / 100))]),
      (''extra_instructions'', JStr ''notebook barata hasta $300'')]"
  by (simp add: heuristic_defs string_defs)

lemma heuristicParse_notebook_barato:
  "heuristicParse w ''notebook barato hasta $300'' = JObj
     [(''keywords'', JStr ''notebook notebook''), (''category'', JStr ''notebook''),
      (''must_have'', JArr []), (''nice_to_have'', JArr []), (''avoid'', JArr []),
      (''budget_min'', JNull), (''budget_max'', JNum 300),
      (''latest_delivery_date'', JNull), (''condition_preference'', JNull),
      (''priority_weights'', JObj
         [(''price'', JNum (7 / 10)), (''delivery_time'', JNum (15 / 100)),
          (''reviews'', JNum (1 / 10)), (''seller_reputation'', JNum (5 / 100))]),
      (''extra_instructions'', JStr ''notebook barato hasta $300'')]"
  by (simp add: heuristic_defs string_defs)

lemma heuristicParse_hola:
  "heuristicParse w ''hola'' = JObj
     [(''keywords'', JNull), (''category'', JNull),
      (''must_have'', JArr []), (''nice_to_have'', JArr []), (''avoid'', JArr []),
      (''budget_min'', JNull), (''budget_max'', JNull),
      (''latest_delivery_date'', JNull), (''condition_preference'', JNull),
      (''priority_weights'', JObj
         [(''price'', JNum (4 / 10)), (''delivery_time'', JNum (15 / 100)),
          (''reviews'', JNum (1 / 10)), (''seller_reputation'', JNum (5 / 100))]),
      (''extra_instructions'', JStr ''hola'')]"
  by (simp add: heuristic_defs string_defs)

lemma extract_criteria_without_key:
  "\<not> OPENAI_API_KEY w \<Longrightarrow> extract_criteria w prompt = heuristicParse w prompt"
  by (simp add: extract_criteria_def)

lemma sample_world_key: "\<not> OPENAI_API_KEY sample_world"
  by (simp add: sample_world_def)

lemma price_weight_barato:
  "str_includes (toLowerCase prompt) ''barato''
   \<Longrightarrow> get_prop (get_prop (heuristicParse w prompt) ''priority_weights'') ''price''
       = JNum (7 / 10)"
  by (simp add: heuristicParse_def Let_def)

text \<open>
  Claim C3 at a failing input. With no language-model credential, the criteria
  extracted from \<^verbatim>\<open>notebook barata hasta $300\<close> have category \<^verbatim>\<open>notebook\<close> and
  budget_max 300, as claimed, but the price weight is 0.4, not 0.7: the heuristic
  looks for the masculine \<^verbatim>\<open>barato\<close> only, which \<^verbatim>\<open>barata\<close> does not contain. (Every
  prompt whose lower-cased text contains \<^verbatim>\<open>barato\<close> gets 0.7, by \<open>price_weight_barato\<close>.)
\<close>

theorem notebook_barata_criteria:
  "get_prop (extract_criteria sample_world ''notebook barata hasta $300'') ''category''
     = JStr ''notebook''
   \<and> get_prop (extract_criteria sample_world ''notebook barata hasta $300'') ''budget_max''
       = JNum 300
   \<and> get_prop (get_prop (extract_criteria sample_world ''notebook barata hasta $300'')
        ''priority_weights'') ''price'' = JNum (4 / 10)
   \<and> get_prop (get_prop (extract_criteria sample_world ''notebook barato hasta $300'')
        ''priority_weights'') ''price'' = JNum (7 / 10)"
  by (simp add: extract_criteria_without_key [OF sample_world_key] heuristicParse_notebook_barata
      heuristicParse_notebook_barato)

lemma first_category_null:
  "(\<forall>c \<in> set cs. \<not> str_includes p c) \<Longrightarrow> first_category p cs = JNull"
  by (induction cs) simp_all

lemma find_Some_mem: "List.find P xs = Some a \<Longrightarrow> a \<in> set xs \<and> P a"
  by (induction xs) (auto split: if_splits)

lemma starts_with_includes: "starts_with s sub \<Longrightarrow> str_includes s sub"
  by (cases s) (simp_all add: starts_with_def)

lemma keywordMatch_Some:
  "keywordMatch p = Some a \<Longrightarrow> a \<in> set keyword_alternatives \<and> str_includes p a"
proof (induction p)
  case Nil
  then show ?case by simp
next
  case (Cons c cs)
  show ?case
  proof (cases "List.find (starts_with (c # cs)) keyword_alternatives")
    case None
    with Cons.prems have "keywordMatch cs = Some a" by simp
    from Cons.IH [OF this] show ?thesis by simp
  next
    case (Some b)
    with Cons.prems have "b = a" by simp
    with Some find_Some_mem [of "starts_with (c # cs)" keyword_alternatives a]
    show ?thesis by simp
  qed
qed

lemma keyword_alternatives_categories: "set keyword_alternatives = set categories"
  by (auto simp: keyword_alternatives_def categories_def)

lemma keywordMatch_None:
  assumes "\<forall>c \<in> set categories. \<not> str_includes p c"
  shows "keywordMatch p = None"
proof (cases "keywordMatch p")
  case None
  then show ?thesis .
next
  case (Some a)
  from keywordMatch_Some [OF this] assms show ?thesis
    by (auto simp: keyword_alternatives_categories)
qed

lemma heuristicParse_no_category:
  assumes "\<forall>c \<in> set categories. \<not> str_includes (toLowerCase prompt) c"
  shows "get_prop (heuristicParse w prompt) ''category'' = JNull"
    and "get_prop (heuristicParse w prompt) ''keywords'' = JNull"
  using first_category_null [OF assms] keywordMatch_None [OF assms]
  by (simp_all add: heuristicParse_def Let_def js_or_def trim_def is_space_def code_unit_def)

lemma heuristicParse_no_budget:
  "priceMatch (toLowerCase prompt) = None
   \<Longrightarrow> get_prop (heuristicParse w prompt) ''budget_max'' = JNull"
  by (simp add: heuristicParse_def Let_def)

lemma hola_matches_nothing:
  "list_all (\<lambda>c. \<not> str_includes (toLowerCase ''hola'') c) categories
   \<and> priceMatch (toLowerCase ''hola'') = None"
  by (simp add: categories_def string_defs match_price_here_def match_space_digits_def
      match_digits_def)

text \<open>
  Claim C4, as stated, fails: for the prompt \<^verbatim>\<open>hola\<close> the keywords are not the empty
  string. The heuristic returns \<^verbatim>\<open>keywords.trim() || null\<close>, which is null when nothing
  matched.
\<close>

theorem hola_keywords_counterexample:
  "get_prop (extract_criteria sample_world ''hola'') ''keywords'' \<noteq> JStr []"
  by (simp add: extract_criteria_without_key [OF sample_world_key] heuristicParse_hola)

text \<open>
  Claim C4, amended. With no language-model credential, the criteria extracted from
  any prompt are a well-formed Criteria object. For every prompt whose lower-cased
  text contains none of the category words, category and keywords are null, and for
  every prompt in which the budget pattern finds no match, budget_max is null; so a
  prompt that matches neither, such as \<^verbatim>\<open>hola\<close>, has all three null.
\<close>

theorem heuristic_criteria_well_formed:
  assumes "\<not> OPENAI_API_KEY w"
  shows "wf_criteria (extract_criteria w prompt)
       \<and> ((\<forall>c \<in> set categories. \<not> str_includes (toLowerCase prompt) c)
            \<longrightarrow> get_prop (extract_criteria w prompt) ''category'' = JNull
              \<and> get_prop (extract_criteria w prompt) ''keywords'' = JNull)
       \<and> (priceMatch (toLowerCase prompt) = None
            \<longrightarrow> get_prop (extract_criteria w prompt) ''budget_max'' = JNull)"
  by (simp add: extract_criteria_without_key [OF assms] wf_criteria_heuristicParse
      heuristicParse_no_category heuristicParse_no_budget)

theorem heuristic_criteria_well_formed_witness:
  "\<not> OPENAI_API_KEY sample_world
   \<and> list_all (\<lambda>c. \<not> str_includes (toLowerCase ''hola'') c) categories
   \<and> priceMatch (toLowerCase ''hola'') = None
   \<and> wf_criteria (extract_criteria sample_world ''hola'')
   \<and> get_prop (extract_criteria sample_world ''hola'') ''category'' = JNull
   \<and> get_prop (extract_criteria sample_world ''hola'') ''budget_max'' = JNull
   \<and> get_prop (extract_criteria sample_world ''hola'') ''keywords'' = JNull"
  using heuristic_criteria_well_formed [OF sample_world_key, of "''hola''"] sample_world_key
    hola_matches_nothing
  by (simp add: list_all_iff)

section \<open>The range of the score and its dependence on the clock\<close>

lemmas sample_defs = sample_item_def item_A_def item_B_def item_C_def item_D_def item_E_def
  registered_2018_def registered_2099_def null_reply_def sample_world_def sample_request_def
  priced_item_def

lemmas scoring_defs = sellerInfo_def enrich_def price_or_def prices_def minPrice_def
  maxPrice_def scorePrice_def scoreShipping_def scoreSeller_def Math_round_def score_of_def
  scoreAll_def score_or_zero_def compare_results_def sort_results_def score_and_sort_def

lemma Math_round_bounds:
  assumes "0 \<le> x" and "x \<le> 100"
  shows "0 \<le> Math_round x \<and> Math_round x \<le> 100"
proof -
  from assms(1) have "of_int 0 \<le> x + 1 / 2" by simp
  then have "0 \<le> \<lfloor>x + 1 / 2\<rfloor>" by (simp only: le_floor_iff)
  moreover from assms(2) have "x + 1 / 2 < of_int 100 + 1" by simp
  then have "\<lfloor>x + 1 / 2\<rfloor> \<le> 100" by (simp only: floor_le_iff)
  ultimately show ?thesis by (simp add: Math_round_def)
qed

lemma double_literals:
  "45 / 100 \<le> fl (45 / 100)" "fl (45 / 100) \<le> 1"
  "4 / 10 \<le> fl (4 / 10)" "fl (fl (4 / 10)) = fl (4 / 10)"
  "0 \<le> fl (6 / 100)" "0 \<le> fl (6 / 10)" "0 \<le> fl (2 / 10)"
  "fl (fl (fl (fl (6 / 10)) + fl (fl (2 / 10))) + fl (fl (2 / 10))) = 1"
  "fl 100 = 100"
  by (simp_all add: fl_eval)

lemma scoreShipping_bounds: "45 / 100 \<le> scoreShipping r \<and> scoreShipping r \<le> 1"
  using double_literals(1,2) by (simp add: scoreShipping_def)

lemma scoreSeller_bounds:
  assumes "scoreSeller w r = Some ss"
    and "\<And>year. getFullYear w (get_prop (seller r) ''registration_date'') = Some year
           \<Longrightarrow> year \<le> current_year w"
  shows "4 / 10 \<le> ss \<and> ss \<le> 1"
proof (cases "truthy (seller r) \<and> truthy (get_prop (seller r) ''registration_date'')")
  case False
  with assms(1) show ?thesis by (auto simp: scoreSeller_def)
next
  case True
  with assms(1) obtain year
    where y: "getFullYear w (get_prop (seller r) ''registration_date'') = Some year"
    by (auto simp: scoreSeller_def split: option.splits)
  let ?m = "min (fl (of_int (current_year w - year))) 10"
  let ?s = "fl (fl (4 / 10) + fl (fl (6 / 100) * ?m))"
  from assms(1) True y have "Some (min 1 ?s) = Some ss"
    by (simp only: scoreSeller_def if_True option.case Let_def simp_thms)
  then have ss: "ss = min 1 ?s" by (simp only: option.inject)
  from assms(2) [OF y] have "(0::rat) \<le> of_int (current_year w - year)" by simp
  then have "0 \<le> fl (of_int (current_year w - year))" by (rule fl_nonneg)
  then have "0 \<le> ?m" by simp
  with double_literals(5) have "0 \<le> fl (6 / 100) * ?m" by (rule mult_nonneg_nonneg)
  then have "0 \<le> fl (fl (6 / 100) * ?m)" by (rule fl_nonneg)
  then have "fl (4 / 10) \<le> fl (4 / 10) + fl (fl (6 / 100) * ?m)" by simp
  then have "fl (fl (4 / 10)) \<le> ?s" by (rule fl_mono)
  with double_literals(3,4) have "4 / 10 \<le> ?s" by simp
  then show ?thesis unfolding ss by (simp add: min_le_iff_disj)
qed

lemma fl_product_le:
  assumes "0 \<le> c" and "x \<le> 1"
  shows "fl (c * x) \<le> fl c"
proof -
  have "c * x \<le> c * 1" using assms(2) assms(1) by (rule mult_left_mono)
  then have "c * x \<le> c" by simp
  then show ?thesis by (rule fl_mono)
qed

lemma fl_product_nonneg: "0 \<le> c \<Longrightarrow> 0 \<le> x \<Longrightarrow> 0 \<le> fl (c * x)"
  by (rule fl_nonneg) (rule mult_nonneg_nonneg)

lemma score_range_for_past_registration:
  assumes "r \<in> set rs"
    and "\<And>year. getFullYear w (get_prop (seller r) ''registration_date'') = Some year
           \<Longrightarrow> year \<le> current_year w"
    and "scoreSeller w r \<noteq> None"
  shows "\<exists>n. score_of w (minPrice rs) (maxPrice rs) r = Score n \<and> 0 \<le> n \<and> n \<le> 100"
proof -
  from assms(3) obtain ss where ss: "scoreSeller w r = Some ss" by auto
  let ?sp = "scorePrice (minPrice rs) (maxPrice rs) r"
  let ?a = "fl (fl (6 / 10) * ?sp)"
  let ?b = "fl (fl (2 / 10) * scoreShipping r)"
  let ?c = "fl (fl (2 / 10) * ss)"
  let ?x = "fl (fl (fl (?a + ?b) + ?c) * 100)"
  from scorePrice_unit [OF assms(1)] have sp: "0 \<le> ?sp" "?sp \<le> 1" by simp_all
  from scoreShipping_bounds [of r] have sh: "0 \<le> scoreShipping r" "scoreShipping r \<le> 1"
    by simp_all
  from scoreSeller_bounds [OF ss assms(2)] have se: "0 \<le> ss" "ss \<le> 1" by simp_all
  have a: "0 \<le> ?a" "?a \<le> fl (fl (6 / 10))"
    using sp double_literals(6) by (simp_all only: fl_product_nonneg fl_product_le)
  have b: "0 \<le> ?b" "?b \<le> fl (fl (2 / 10))"
    using sh double_literals(7) by (simp_all only: fl_product_nonneg fl_product_le)
  have c: "0 \<le> ?c" "?c \<le> fl (fl (2 / 10))"
    using se double_literals(7) by (simp_all only: fl_product_nonneg fl_product_le)
  from a b have "0 \<le> ?a + ?b" and "?a + ?b \<le> fl (fl (6 / 10)) + fl (fl (2 / 10))"
    by simp_all
  then have ab: "0 \<le> fl (?a + ?b)" "fl (?a + ?b) \<le> fl (fl (fl (6 / 10)) + fl (fl (2 / 10)))"
    by (simp_all only: fl_nonneg fl_mono)
  from ab c have "0 \<le> fl (?a + ?b) + ?c"
    and "fl (?a + ?b) + ?c \<le> fl (fl (fl (6 / 10)) + fl (fl (2 / 10))) + fl (fl (2 / 10))"
    by simp_all
  then have "0 \<le> fl (fl (?a + ?b) + ?c)"
    and "fl (fl (?a + ?b) + ?c)
           \<le> fl (fl (fl (fl (6 / 10)) + fl (fl (2 / 10))) + fl (fl (2 / 10)))"
    by (simp_all only: fl_nonneg fl_mono)
  then have abc: "0 \<le> fl (fl (?a + ?b) + ?c)" "fl (fl (?a + ?b) + ?c) \<le> 1"
    by (simp_all only: double_literals(8))
  then have "0 \<le> fl (fl (?a + ?b) + ?c) * 100" and "fl (fl (?a + ?b) + ?c) * 100 \<le> 100"
    by simp_all
  then have "0 \<le> ?x" and "?x \<le> fl 100" by (simp_all only: fl_nonneg fl_mono)
  then have "0 \<le> ?x" and "?x \<le> 100" by (simp_all only: double_literals(9))
  then have "0 \<le> Math_round ?x \<and> Math_round ?x \<le> 100" by (rule Math_round_bounds)
  with ss show ?thesis by (simp add: score_of_def)
qed

text \<open>
  Claim C2 at a failing input. The batch holds one result, priced 100, without free
  shipping, whose seller registered in 2099 while the clock reads 2026: the age is
  \<open>- 73\<close>, the seller score \<open>0.4 - 4.38\<close>, and the score \<open>- 11\<close>, outside the interval
  from 0 to 100. (For registration years that are readable and not after the current
  year, \<open>score_range_for_past_registration\<close> gives the interval.)
\<close>

theorem future_registration_score:
  "map score (score_and_sort sample_world (map (enrich sample_world) [item_D])) = [Score (- 11)]"
  by (simp add: sample_defs scoring_defs js_or_def opt_prop_def double_whole)
    (simp add: fl_eval)

lemma item_A_score_2026:
  "map score (score_and_sort sample_world (map (enrich sample_world) [item_A])) = [Score 98]"
  by (simp add: sample_defs scoring_defs js_or_def opt_prop_def double_whole)
    (simp add: fl_eval)

lemma item_A_score_2027:
  "map score (score_and_sort (sample_world\<lparr>current_year := 2027\<rparr>)
     (map (enrich sample_world) [item_A])) = [Score 99]"
  by (simp add: sample_defs scoring_defs js_or_def opt_prop_def double_whole)
    (simp add: fl_eval)

text \<open>
  The rounding of the doubles shows in the score. In the batch priced 100, 200 and
  2500, without shipping or seller data, the exact value of the second result's
  weighted sum is 76.5, which would round to 77; the runtime's sum is a double just
  below it, and the score is 76.
\<close>

lemma rounded_score_example:
  "map score (scoreAll sample_world batch_cents) = [Score 79, Score 76, Score 19]"
  by (simp add: batch_cents_def sample_defs scoring_defs js_or_def opt_prop_def double_whole)
    (simp add: fl_eval)

text \<open>
  Claim C5, as stated, fails: on the same enriched result, scoring in 2027 gives 99
  where scoring in 2026 gives 98. The seller's age is taken from the clock.
\<close>

theorem scoring_reads_the_clock_counterexample:
  "score_and_sort (sample_world\<lparr>current_year := 2027\<rparr>) (map (enrich sample_world) [item_A])
     \<noteq> score_and_sort sample_world (map (enrich sample_world) [item_A])"
proof
  assume "score_and_sort (sample_world\<lparr>current_year := 2027\<rparr>)
            (map (enrich sample_world) [item_A])
          = score_and_sort sample_world (map (enrich sample_world) [item_A])"
  then have "[Score 99] = [Score 98]"
    using item_A_score_2026 item_A_score_2027 by simp
  then show False by simp
qed

lemma scoreSeller_frame:
  "current_year w1 = current_year w2 \<Longrightarrow> getFullYear w1 = getFullYear w2
   \<Longrightarrow> scoreSeller w1 r = scoreSeller w2 r"
  by (simp add: scoreSeller_def Let_def split: option.splits)

lemma score_of_frame:
  "current_year w1 = current_year w2 \<Longrightarrow> getFullYear w1 = getFullYear w2
   \<Longrightarrow> score_of w1 mn mx r = score_of w2 mn mx r"
  by (simp add: score_of_def scoreSeller_frame [of w1 w2])

text \<open>
  Claim C5, amended. The scorer is a function of its inputs and of two readings of
  the runtime, the current year and the year of a date: two runs on equal inputs
  that agree on these produce equal result sequences, scores and order included,
  whatever else differs in the environment.
\<close>

theorem scoring_depends_on_year_only:
  assumes "current_year w1 = current_year w2" and "getFullYear w1 = getFullYear w2"
  shows "scoreAll w1 rs = scoreAll w2 rs \<and> score_and_sort w1 rs = score_and_sort w2 rs"
  using score_of_frame [OF assms] by (simp add: scoreAll_def score_and_sort_def)

theorem scoring_depends_on_year_only_witness:
  "current_year sample_world = current_year (sample_world\<lparr>OPENAI_API_KEY := True, week_ahead := ''2026-12-24''\<rparr>)
   \<and> getFullYear sample_world = getFullYear (sample_world\<lparr>OPENAI_API_KEY := True, week_ahead := ''2026-12-24''\<rparr>)
   \<and> score_and_sort sample_world (map (enrich sample_world) [item_A, item_B])
       = score_and_sort (sample_world\<lparr>OPENAI_API_KEY := True, week_ahead := ''2026-12-24''\<rparr>)
           (map (enrich sample_world) [item_A, item_B])"
  using scoring_depends_on_year_only [of sample_world
      "sample_world\<lparr>OPENAI_API_KEY := True, week_ahead := ''2026-12-24''\<rparr>"
      "map (enrich sample_world) [item_A, item_B]"]
  by simp

section \<open>The price score\<close>

lemmas batch_defs = batch_E_def batch_EBA_def batch_BA_def batch_BB_def batch_wide_def
  batch_cents_def




lemma batch_BB_prices: "minPrice batch_BB = 100 \<and> maxPrice batch_BB = 100"
  by (simp add: batch_defs sample_defs scoring_defs double_whole)






text \<open>
  Rounding can make two different prices score the same: in the batch priced 1, 2,
  3 and \<open>10 ^ 17\<close> the quotients of the results priced 2 and 3 are about \<open>10 ^ - 17\<close>,
  less than half the spacing of the doubles below 1, and both price scores are 1.
  So a smaller price gives a price score that is at least as high, not always a
  higher one.
\<close>

lemma price_score_tie:
  "maxPrice batch_wide \<noteq> minPrice batch_wide
   \<and> price_or (maxPrice batch_wide) (enrich sample_world (priced_item 2))
       < price_or (maxPrice batch_wide) (enrich sample_world (priced_item 3))
   \<and> scorePrice (minPrice batch_wide) (maxPrice batch_wide) (enrich sample_world (priced_item 2))
       = scorePrice (minPrice batch_wide) (maxPrice batch_wide) (enrich sample_world (priced_item 3))"
  by (simp add: batch_wide_def sample_defs scoring_defs js_or_def opt_prop_def double_whole)
    (simp add: fl_eval)



section \<open>The handler's successful responses\<close>

lemma handler_respond:
  assumes "handler w req = Success c rs q"
  shows "\<exists>its. respond w (extract_criteria w (trim (req_prompt req))) its = Success c rs q"
proof -
  let ?c = "extract_criteria w (trim (req_prompt req))"
  let ?q = "js_or (get_prop ?c ''keywords'') (js_or (get_prop ?c ''category'')
    (JStr (trim (req_prompt req))))"
  from assms obtain body where "sites_search w ?q = Search_ok body"
    and "respond w ?c (items_of body) = Success c rs q"
    by (auto simp: handler_def Let_def
        split: if_splits search_reply.splits search_body.splits)
  then show ?thesis by blast
qed

lemma handler_Success:
  assumes "handler w req = Success c rs q"
  shows "\<exists>its. c = extract_criteria w (trim (req_prompt req))
           \<and> rs = score_and_sort w (map (enrich w) its)
           \<and> q = repregunta c rs"
proof -
  from handler_respond [OF assms] obtain its
    where "respond w (extract_criteria w (trim (req_prompt req))) its = Success c rs q" ..
  then have "c = extract_criteria w (trim (req_prompt req))
      \<and> rs = score_and_sort w (map (enrich w) its) \<and> q = repregunta c rs"
    by (auto simp: respond_def Let_def)
  then show ?thesis ..
qed

lemma score_scoreAll: "r \<in> set (scoreAll w rs) \<Longrightarrow> score r \<noteq> Unscored"
  by (auto simp: scoreAll_def Let_def score_of_def split: option.splits)

lemma descending_nth:
  assumes "descending rs" and "i < j" and "j < length rs"
    and "score (rs ! i) = Score m" and "score (rs ! j) = Score n"
  shows "n \<le> m"
proof -
  from assms(1-3) have "score_or_zero (rs ! j) \<le> score_or_zero (rs ! i)"
    by (simp add: descending_def sorted_wrt_iff_nth_less)
  with assms(4,5) show ?thesis by (simp add: score_or_zero_def)
qed

text \<open>
  Claim C7. In every successful response the results are in descending order of
  score: the list is descending in \<^verbatim>\<open>score || 0\<close>, the key the comparator reads, so of
  two results with numeric scores the earlier one has the greater or equal score.
  Every result has been scored before the sort, the list is one sort of the scored
  list, and results with equal keys stand in the order the scored list had them.
\<close>

theorem results_sorted_by_score:
  assumes "handler w req = Success c rs q"
  shows "descending rs
       \<and> (\<forall>i j m n. i < j \<and> j < length rs \<and> score (rs ! i) = Score m \<and> score (rs ! j) = Score n
            \<longrightarrow> n \<le> m)
       \<and> (\<forall>r \<in> set rs. score r \<noteq> Unscored)
       \<and> (\<exists>its. rs = sort_results (scoreAll w (map (enrich w) its))
            \<and> (\<forall>k. filter (\<lambda>r. score_or_zero r = k) rs
                   = filter (\<lambda>r. score_or_zero r = k) (scoreAll w (map (enrich w) its))))"
proof -
  from handler_Success [OF assms] obtain its
    where rs: "rs = sort_results (scoreAll w (map (enrich w) its))"
    by (auto simp: score_and_sort_def)
  have d: "descending rs" unfolding rs by (rule descending_sort_results)
  have "\<forall>r \<in> set rs. score r \<noteq> Unscored"
    unfolding rs by (simp add: set_sort_results score_scoreAll)
  moreover have "\<forall>k. filter (\<lambda>r. score_or_zero r = k) rs
      = filter (\<lambda>r. score_or_zero r = k) (scoreAll w (map (enrich w) its))"
    unfolding rs by (simp add: sort_results_stable)
  moreover have "\<forall>i j m n. i < j \<and> j < length rs \<and> score (rs ! i) = Score m
      \<and> score (rs ! j) = Score n \<longrightarrow> n \<le> m"
    using descending_nth [OF d] by blast
  ultimately show ?thesis using d rs by blast
qed


lemma heuristicParse_object: "\<not> nullish (heuristicParse w prompt)"
  by (simp add: heuristicParse_def Let_def)

lemma heuristicParse_sample:
  "heuristicParse w ''notebook barato'' = JObj
     [(''keywords'', JStr ''notebook notebook''), (''category'', JStr ''notebook''),
      (''must_have'', JArr []), (''nice_to_have'', JArr []), (''avoid'', JArr []),
      (''budget_min'', JNull), (''budget_max'', JNull),
      (''latest_delivery_date'', JNull), (''condition_preference'', JNull),
      (''priority_weights'', JObj
         [(''price'', JNum (7 / 10)), (''delivery_time'', JNum (15 / 100)),
          (''reviews'', JNum (1 / 10)), (''seller_reputation'', JNum (5 / 100))]),
      (''extra_instructions'', JStr ''notebook barato'')]"
  by (simp add: heuristic_defs string_defs)

lemma heuristicParse_semana:
  "get_prop (heuristicParse w ''notebook esta semana'') ''latest_delivery_date''
     = JStr (week_ahead w)"
  by (simp add: heuristic_defs string_defs)

lemma sample_results_eval:
  "map id_field sample_results = [JStr ''MLA2'', JStr ''MLA1'', JStr ''MLA3'']
   \<and> map score sample_results = [Score 79, Score 38, Score 19]
   \<and> map free_shipping sample_results = [JBool False, JBool True, JBool False]"
  by (simp add: sample_results_def sample_defs scoring_defs js_or_def opt_prop_def double_whole)
    (simp add: fl_eval)

lemma sample_repregunta:
  "repregunta (heuristicParse sample_world ''notebook barato'') sample_results
     = Some fixed_question"
proof -
  have "map free_shipping sample_results = [JBool False, JBool True, JBool False]"
    using sample_results_eval by simp
  then have "JBool False \<in> free_shipping ` set sample_results"
    by (metis list.set_intros(1) set_map)
  then have "list_ex (\<lambda>r. free_shipping r = JBool False) sample_results"
    by (auto simp: list_ex_iff)
  then show ?thesis by (simp add: repregunta_def heuristicParse_sample)
qed

lemma handler_sample:
  "handler sample_world sample_request
     = Success (heuristicParse sample_world ''notebook barato'') sample_results
         (Some fixed_question)"
proof -
  have t: "trim (req_prompt sample_request) = ''notebook barato''"
    by (simp add: sample_request_def string_defs)
  have m: "req_method sample_request = ''POST''" by (simp add: sample_request_def)
  have s: "sites_search sample_world q = Search_ok (Body_results [item_A, item_B, item_C])" for q
    by (simp add: sample_world_def)
  have r: "respond sample_world (heuristicParse sample_world ''notebook barato'')
        [item_A, item_B, item_C]
      = Success (heuristicParse sample_world ''notebook barato'') sample_results
          (Some fixed_question)"
    by (simp only: respond_def Let_def sample_results_def [symmetric] sample_repregunta)
  show ?thesis
    by (simp add: handler_def t m s Let_def extract_criteria_without_key [OF sample_world_key]
        heuristicParse_object r)
qed

theorem results_sorted_by_score_witness:
  "handler sample_world sample_request
     = Success (heuristicParse sample_world ''notebook barato'') sample_results
         (Some fixed_question)
   \<and> descending sample_results
   \<and> map score sample_results = [Score 79, Score 38, Score 19]"
  using results_sorted_by_score [OF handler_sample] handler_sample sample_results_eval by simp

section \<open>The follow-up question and the shipping flag\<close>

lemma nullish_not_truthy: "nullish v \<Longrightarrow> \<not> truthy v"
  by (cases v) simp_all

lemma falsy_cases:
  "\<not> truthy v \<longleftrightarrow> v = JUndefined \<or> v = JNull \<or> v = JBool False \<or> v = JNum 0 \<or> v = JStr []"
  by (cases v) auto

lemma repregunta_cases:
  "repregunta c rs
     = (if \<not> truthy (get_prop c ''latest_delivery_date'')
           \<and> (\<exists>r \<in> set rs. free_shipping r = JBool False)
        then Some fixed_question else None)"
  by (simp add: repregunta_def list_ex_iff)

lemma enrich_users: "users w1 = users w2 \<Longrightarrow> enrich w1 = enrich w2"
  by (rule ext) (simp add: enrich_def sellerInfo_def)

lemma score_and_sort_frame:
  "current_year w1 = current_year w2 \<Longrightarrow> getFullYear w1 = getFullYear w2
   \<Longrightarrow> score_and_sort w1 rs = score_and_sort w2 rs"
  using score_of_frame [of w1 w2] by (simp add: scoreAll_def score_and_sort_def)

lemma sample_results_not_all_free:
  "\<exists>r \<in> set sample_results. free_shipping r = JBool False"
proof -
  have "map free_shipping sample_results = [JBool False, JBool True, JBool False]"
    using sample_results_eval by simp
  then have "JBool False \<in> free_shipping ` set sample_results"
    by (metis list.set_intros(1) set_map)
  then show ?thesis by auto
qed

lemma handler_empty_date:
  "handler empty_date_world sample_request
     = Success empty_date_criteria sample_results (Some fixed_question)"
proof -
  have t: "trim (req_prompt sample_request) = ''notebook barato''"
    by (simp add: sample_request_def string_defs)
  have m: "req_method sample_request = ''POST''" by (simp add: sample_request_def)
  have k: "OPENAI_API_KEY empty_date_world" by (simp add: empty_date_world_def)
  have p: "parsePromptWithOpenAI empty_date_world ''notebook barato'' = Inr empty_date_criteria"
    by (simp add: parsePromptWithOpenAI_def empty_date_world_def js_or_def opt_prop_def
        json_span_def empty_date_text_def)
  have s: "sites_search empty_date_world q = Search_ok (Body_results [item_A, item_B, item_C])"
    for q
    by (simp add: empty_date_world_def sample_world_def)
  have e: "enrich empty_date_world = enrich sample_world"
    by (rule enrich_users) (simp add: empty_date_world_def)
  have "score_and_sort empty_date_world (map (enrich sample_world) [item_A, item_B, item_C])
      = sample_results"
    unfolding sample_results_def
    by (rule score_and_sort_frame) (simp_all add: empty_date_world_def)
  moreover have "repregunta empty_date_criteria sample_results = Some fixed_question"
    using sample_results_not_all_free
    by (simp add: repregunta_cases empty_date_criteria_def)
  ultimately have r: "respond empty_date_world empty_date_criteria [item_A, item_B, item_C]
      = Success empty_date_criteria sample_results (Some fixed_question)"
    by (simp only: respond_def Let_def e)
  have n: "\<not> nullish empty_date_criteria" by (simp add: empty_date_criteria_def)
  show ?thesis
    by (simp add: handler_def t m Let_def extract_criteria_def k p n s r)
qed

text \<open>
  Claim C8, as stated, fails on a delivery date that is not null but falsy. The
  language model answers \<^verbatim>\<open>{"latest_delivery_date":""}\<close>; the criteria's date is the
  empty string, not null, and the response still carries the fixed question.
\<close>

theorem empty_date_follow_up_counterexample:
  "get_prop empty_date_criteria ''latest_delivery_date'' = JStr []
   \<and> get_prop empty_date_criteria ''latest_delivery_date'' \<noteq> JNull
   \<and> handler empty_date_world sample_request
       = Success empty_date_criteria sample_results (Some fixed_question)"
  using handler_empty_date by (simp add: empty_date_criteria_def)

text \<open>
  Claim C8, amended. For every criteria and result list, the follow-up question is
  the fixed string exactly when the criteria's delivery date is falsy (undefined,
  null, false, 0 or the empty string) and some result has \<^verbatim>\<open>free_shipping\<close> false,
  and null in every other case, in particular whenever the date is truthy, whatever
  the shipping flags; and the question of a successful response is the one computed
  from that response's criteria and results.
\<close>

theorem follow_up_question:
  "repregunta c rs
     = (if \<not> truthy (get_prop c ''latest_delivery_date'')
           \<and> (\<exists>r \<in> set rs. free_shipping r = JBool False)
        then Some fixed_question else None)
   \<and> (truthy (get_prop c ''latest_delivery_date'') \<longrightarrow> repregunta c rs = None)
   \<and> (\<not> truthy (get_prop c ''latest_delivery_date'')
        \<longleftrightarrow> get_prop c ''latest_delivery_date'' = JUndefined
            \<or> get_prop c ''latest_delivery_date'' = JNull
            \<or> get_prop c ''latest_delivery_date'' = JBool False
            \<or> get_prop c ''latest_delivery_date'' = JNum 0
            \<or> get_prop c ''latest_delivery_date'' = JStr [])
   \<and> (handler w req = Success c' rs' q \<longrightarrow> q = repregunta c' rs')"
proof (intro conjI impI)
  show "repregunta c rs
      = (if \<not> truthy (get_prop c ''latest_delivery_date'')
            \<and> (\<exists>r \<in> set rs. free_shipping r = JBool False)
         then Some fixed_question else None)"
    by (rule repregunta_cases)
next
  assume "truthy (get_prop c ''latest_delivery_date'')"
  then show "repregunta c rs = None" by (simp add: repregunta_def)
next
  show "\<not> truthy (get_prop c ''latest_delivery_date'')
      \<longleftrightarrow> get_prop c ''latest_delivery_date'' = JUndefined
          \<or> get_prop c ''latest_delivery_date'' = JNull
          \<or> get_prop c ''latest_delivery_date'' = JBool False
          \<or> get_prop c ''latest_delivery_date'' = JNum 0
          \<or> get_prop c ''latest_delivery_date'' = JStr []"
    by (rule falsy_cases)
next
  assume "handler w req = Success c' rs' q"
  from handler_Success [OF this] show "q = repregunta c' rs'" by blast
qed

theorem follow_up_question_witness:
  "repregunta (heuristicParse sample_world ''notebook barato'') sample_results
     = Some fixed_question
   \<and> truthy (get_prop (heuristicParse sample_world ''notebook esta semana'')
        ''latest_delivery_date'')
   \<and> repregunta (heuristicParse sample_world ''notebook esta semana'') sample_results = None
   \<and> handler sample_world sample_request
       = Success (heuristicParse sample_world ''notebook barato'') sample_results
           (repregunta (heuristicParse sample_world ''notebook barato'') sample_results)"
proof -
  have b: "truthy (get_prop (heuristicParse sample_world ''notebook esta semana'')
      ''latest_delivery_date'')"
    by (simp add: heuristicParse_semana sample_world_def)
  from b handler_sample
    follow_up_question [of "heuristicParse sample_world ''notebook barato''" sample_results
      sample_world sample_request "heuristicParse sample_world ''notebook barato''"
      sample_results "Some fixed_question"]
    follow_up_question [of "heuristicParse sample_world ''notebook esta semana''" sample_results]
  show ?thesis by auto
qed

text \<open>
  Claim C10, as stated, fails on a flag that is truthy and not a boolean: for an
  item whose shipping block says \<^verbatim>\<open>free_shipping: 1\<close>, the field of the enriched result
  is the number 1.
\<close>

theorem numeric_flag_counterexample:
  "free_shipping (enrich sample_world item_F) = JNum 1
   \<and> \<not> is_boolean (free_shipping (enrich sample_world item_F))"
  by (simp add: enrich_def Let_def item_F_def sample_item_def js_or_def opt_prop_def
      is_boolean_def)

text \<open>
  Claim C10, amended. The \<^verbatim>\<open>free_shipping\<close> field of an enriched result is never null
  or undefined. It is the boolean false whenever the item has no shipping block or
  the block's flag is absent or falsy, and it is the flag itself whenever the flag
  is truthy; so it is a boolean for every item whose flag is a boolean, absent or
  falsy.
\<close>

theorem free_shipping_boolean:
  "free_shipping (enrich w it) \<noteq> JNull \<and> free_shipping (enrich w it) \<noteq> JUndefined
   \<and> (nullish (item_shipping it) \<longrightarrow> free_shipping (enrich w it) = JBool False)
   \<and> (\<not> truthy (opt_prop (item_shipping it) ''free_shipping'')
        \<longrightarrow> free_shipping (enrich w it) = JBool False)
   \<and> (truthy (opt_prop (item_shipping it) ''free_shipping'')
        \<longrightarrow> free_shipping (enrich w it) = opt_prop (item_shipping it) ''free_shipping'')
   \<and> (is_boolean (opt_prop (item_shipping it) ''free_shipping'')
        \<longrightarrow> free_shipping (enrich w it) = opt_prop (item_shipping it) ''free_shipping'')
   \<and> (is_boolean (opt_prop (item_shipping it) ''free_shipping'')
        \<or> \<not> truthy (opt_prop (item_shipping it) ''free_shipping'')
        \<longrightarrow> is_boolean (free_shipping (enrich w it)))"
proof -
  let ?flag = "opt_prop (item_shipping it) ''free_shipping''"
  have fs: "free_shipping (enrich w it) = js_or ?flag (JBool False)"
    by (simp add: enrich_def Let_def)
  show ?thesis unfolding fs
    by (cases ?flag) (auto simp: js_or_def is_boolean_def opt_prop_def)
qed

theorem free_shipping_boolean_witness:
  "nullish (item_shipping item_C)
   \<and> free_shipping (enrich sample_world item_C) = JBool False
   \<and> is_boolean (opt_prop (item_shipping item_A) ''free_shipping'')
   \<and> free_shipping (enrich sample_world item_A) = JBool True
   \<and> \<not> truthy (opt_prop (item_shipping item_B) ''free_shipping'')
   \<and> free_shipping (enrich sample_world item_B) = JBool False
   \<and> truthy (opt_prop (item_shipping item_F) ''free_shipping'')
   \<and> free_shipping (enrich sample_world item_F) = JNum 1"
  using free_shipping_boolean [of sample_world item_C]
    free_shipping_boolean [of sample_world item_A]
    free_shipping_boolean [of sample_world item_B]
    free_shipping_boolean [of sample_world item_F]
  by (simp add: sample_defs item_F_def opt_prop_def is_boolean_def)

section \<open>Extraction through the language model\<close>

lemma heuristicParse_key: "heuristicParse (w\<lparr>OPENAI_API_KEY := b\<rparr>) prompt = heuristicParse w prompt"
  by (simp add: heuristicParse_def Let_def)

lemma enrich_key: "enrich (w\<lparr>OPENAI_API_KEY := b\<rparr>) = enrich w"
  by (rule ext) (simp add: enrich_def sellerInfo_def)

lemma score_and_sort_key: "score_and_sort (w\<lparr>OPENAI_API_KEY := b\<rparr>) rs = score_and_sort w rs"
  using score_of_frame [of "w\<lparr>OPENAI_API_KEY := b\<rparr>" w]
  by (simp add: score_and_sort_def scoreAll_def)

lemma respond_key: "respond (w\<lparr>OPENAI_API_KEY := b\<rparr>) c its = respond w c its"
  by (simp add: respond_def Let_def enrich_key score_and_sort_key)

lemma extract_criteria_fallback:
  "parsePromptWithOpenAI w prompt = Inl e \<Longrightarrow> extract_criteria w prompt = heuristicParse w prompt"
  by (simp add: extract_criteria_def)

text \<open>
  Whenever \<open>parsePromptWithOpenAI\<close> throws, the handler goes on with the heuristic
  criteria and answers as it would without the credential.
\<close>

lemma fallback_on_failure:
  assumes "parsePromptWithOpenAI w (trim (req_prompt req)) = Inl e"
  shows "extract_criteria w (trim (req_prompt req)) = heuristicParse w (trim (req_prompt req))"
    and "handler w req = handler (w\<lparr>OPENAI_API_KEY := False\<rparr>) req"
proof -
  show c: "extract_criteria w (trim (req_prompt req)) = heuristicParse w (trim (req_prompt req))"
    using assms by (rule extract_criteria_fallback)
  have "extract_criteria (w\<lparr>OPENAI_API_KEY := False\<rparr>) (trim (req_prompt req))
      = heuristicParse w (trim (req_prompt req))"
    by (simp add: extract_criteria_def heuristicParse_key)
  with c show "handler w req = handler (w\<lparr>OPENAI_API_KEY := False\<rparr>) req"
    by (simp add: handler_def Let_def respond_key
        split: search_reply.splits search_body.splits)
qed

lemma parsePromptWithOpenAI_throws:
  "(\<exists>e. parsePromptWithOpenAI w prompt = Inl e) \<longleftrightarrow>
     (case chat_completions w prompt of
        LLM_body j \<Rightarrow>
          nullish j
          \<or> (case js_or (opt_prop (opt_prop (opt_index0 (get_prop j ''choices'')) ''message'')
                          ''content'') (JStr ''{}'') of
                JStr t \<Rightarrow> JSON_parse w (case json_span t of Some m \<Rightarrow> m | None \<Rightarrow> t) = None
              | _ \<Rightarrow> True)
      | _ \<Rightarrow> True)"
  by (auto simp: parsePromptWithOpenAI_def Let_def split: llm_reply.splits jsval.splits option.splits)

text \<open>
  Where the server error comes from. Without the credential it is always the
  marketplace search; with a marketplace that answers, it is a language-model reply
  that was parsed, without throwing, to null.
\<close>

lemma server_error_without_key:
  assumes "\<not> OPENAI_API_KEY w" and "handler w req = ServerError"
  shows "\<exists>q. sites_search w q = Search_unreachable \<or> sites_search w q = Search_unreadable
           \<or> sites_search w q = Search_ok Body_null"
  using assms
  by (auto simp: handler_def Let_def extract_criteria_without_key heuristicParse_object
      respond_def split: if_splits search_reply.splits search_body.splits)

lemma server_error_with_key:
  assumes "handler w req = ServerError"
    and "\<And>q. sites_search w q = Search_ok (Body_results (its q))"
  shows "\<exists>c. parsePromptWithOpenAI w (trim (req_prompt req)) = Inr c \<and> nullish c"
proof -
  from assms have n: "nullish (extract_criteria w (trim (req_prompt req)))"
    by (auto simp: handler_def Let_def respond_def split: if_splits)
  then show ?thesis
    by (auto simp: extract_criteria_def heuristicParse_object split: if_splits sum.splits)
qed

text \<open>
  Claim C1 at a failing input. The credential is set and the language model answers
  with the text \<^verbatim>\<open>null\<close>. The text holds no brace, \<^verbatim>\<open>JSON.parse\<close> accepts it, and
  \<open>parsePromptWithOpenAI\<close> returns null without throwing, so nothing falls back; the
  handler then reads \<^verbatim>\<open>criteria.keywords\<close> of null and answers with the server error,
  where the same request without the credential succeeds.
\<close>

theorem null_reply_fails_request:
  "parsePromptWithOpenAI (sample_world\<lparr>OPENAI_API_KEY := True\<rparr>) ''notebook barato'' = Inr JNull
   \<and> handler (sample_world\<lparr>OPENAI_API_KEY := True\<rparr>) sample_request = ServerError
   \<and> handler sample_world sample_request
       = Success (heuristicParse sample_world ''notebook barato'') sample_results
           (Some fixed_question)"
proof -
  have t: "trim (req_prompt sample_request) = ''notebook barato''"
    by (simp add: sample_request_def string_defs)
  have m: "req_method sample_request = ''POST''" by (simp add: sample_request_def)
  have p: "parsePromptWithOpenAI (sample_world\<lparr>OPENAI_API_KEY := True\<rparr>) ''notebook barato''
      = Inr JNull"
    by (simp add: parsePromptWithOpenAI_def sample_world_def null_reply_def js_or_def
        opt_prop_def json_span_def)
  have "handler (sample_world\<lparr>OPENAI_API_KEY := True\<rparr>) sample_request = ServerError"
    by (simp add: handler_def t m Let_def extract_criteria_def p)
  with p handler_sample show ?thesis by simp
qed

end
